theory Spec2Isabelle
  imports Main
begin

section \<open>Values that cross the HTTP boundary\<close>

text \<open>
  The handlers of \<^verbatim>\<open>backend/api_modular/auth.py\<close> read a JSON body, a session
  cookie, the peer address and two headers from the Flask request, and answer with a
  status, a JSON body and possibly a cookie. Strings are sequences of 8-bit code points
  (the Latin-1 range, which is what a header can hold); timestamps are seconds on the
  wall clock. The \<open>body\<close> of a request is what \<^verbatim>\<open>request.get_json()\<close> returns: \<open>None\<close>
  for JSON null, otherwise the decoded object as its list of members (bodies that are
  not objects are not modelled, and numbers are integers). An exception that leaves a
  handler is the outcome \<open>Raised\<close>.
\<close>

type_synonym datetime = int

datatype json =
    JNull
  | JBool bool
  | JInt int
  | JStr string
  | JList "json list"
  | JObj "(string \<times> json) list"

datatype exn = AttributeError | IntegrityError | StoreError

datatype cookie = NoCookie | SetCookie string "nat option" | DeleteCookie

datatype outcome = Response nat json cookie | Raised exn

record request =
  body :: "(string \<times> json) list option"
  session_cookie :: "string option"
  remote_addr :: "string option"
  user_agent :: "string option"
  x_forwarded_for :: "string option"

definition jsonify :: "nat \<Rightarrow> (string \<times> json) list \<Rightarrow> outcome" where
  "jsonify status kvs = Response status (JObj kvs) NoCookie"

definition error_response :: "nat \<Rightarrow> string \<Rightarrow> outcome" where
  "error_response status msg = jsonify status [(''error'', JStr msg)]"

subsection \<open>Python string and dictionary primitives\<close>

text \<open>
  \<^verbatim>\<open>str.strip()\<close> removes the characters for which \<^verbatim>\<open>str.isspace()\<close> holds from
  both ends; below code point 256 these are 9 to 13, 28 to 32, 133 and 160.
\<close>

definition isspace :: "char \<Rightarrow> bool" where
  "isspace c = ((of_char c :: nat) \<in> set [9, 10, 11, 12, 13, 28, 29, 30, 31, 32, 133, 160])"

definition strip :: "string \<Rightarrow> string" where
  "strip s = rev (dropWhile isspace (rev (dropWhile isspace s)))"

text \<open>\<^verbatim>\<open>s.split(',')[0]\<close>: the text before the first comma (all of it when there is none).\<close>

definition split_comma_first :: "string \<Rightarrow> string" where
  "split_comma_first s = takeWhile (\<lambda>c. c \<noteq> CHR '','') s"

text \<open>Python truthiness of a decoded JSON value.\<close>

fun truthy :: "json \<Rightarrow> bool" where
  "truthy JNull = False"
| "truthy (JBool b) = b"
| "truthy (JInt n) = (n \<noteq> 0)"
| "truthy (JStr s) = (s \<noteq> [])"
| "truthy (JList xs) = (xs \<noteq> [])"
| "truthy (JObj kvs) = (kvs \<noteq> [])"

text \<open>
  \<^verbatim>\<open>data.get(key)\<close> on the decoded object: of several members with the same name the
  decoder keeps the last.
\<close>

definition dict_get :: "(string \<times> json) list \<Rightarrow> string \<Rightarrow> json option" where
  "dict_get data key = map_of (rev data) key"

text \<open>
  \<^verbatim>\<open>data.get(key, "").strip()\<close>: a missing key gives the empty string; a value that is
  not a string has no \<^verbatim>\<open>strip\<close> and the call raises.
\<close>

definition get_stripped :: "(string \<times> json) list \<Rightarrow> string \<Rightarrow> string \<Rightarrow> exn + string" where
  "get_stripped data key dflt =
     (case dict_get data key of
        None \<Rightarrow> Inr (strip dflt)
      | Some (JStr s) \<Rightarrow> Inr (strip s)
      | Some _ \<Rightarrow> Inl AttributeError)"

text \<open>
  \<^verbatim>\<open>base64.b64encode(bs).decode('ascii')\<close>: three bytes become four characters of the
  standard alphabet, and a last group of one or two bytes is padded with \<open>=\<close>.
\<close>

definition b64_alphabet :: string where
  "b64_alphabet = ''ABCDEFGHIJKLMNOPQRSTUVWXYZabcdefghijklmnopqrstuvwxyz0123456789+/''"

definition b64_char :: "nat \<Rightarrow> char" where
  "b64_char n = b64_alphabet ! (n mod 64)"

fun b64encode :: "string \<Rightarrow> string" where
  "b64encode [] = []"
| "b64encode [a] =
     (let n = (of_char a :: nat) * 65536
      in [b64_char (n div 262144), b64_char (n div 4096), CHR ''='', CHR ''=''])"
| "b64encode [a, b] =
     (let n = (of_char a :: nat) * 65536 + of_char b * 256
      in [b64_char (n div 262144), b64_char (n div 4096), b64_char (n div 64), CHR ''=''])"
| "b64encode (a # b # c # rest) =
     (let n = (of_char a :: nat) * 65536 + of_char b * 256 + of_char c
      in [b64_char (n div 262144), b64_char (n div 4096), b64_char (n div 64), b64_char n]
         @ b64encode rest)"

text \<open>\<^verbatim>\<open>str.lower()\<close> on code points below 256: A to Z and the accented capitals move up by 32.\<close>

definition lower_char :: "char \<Rightarrow> char" where
  "lower_char c =
     (let n = (of_char c :: nat)
      in if (65 \<le> n \<and> n \<le> 90) \<or> (192 \<le> n \<and> n \<le> 214) \<or> (216 \<le> n \<and> n \<le> 222)
         then char_of (n + 32) else c)"

definition lower :: "string \<Rightarrow> string" where
  "lower s = map lower_char s"

section \<open>The identity store\<close>

text \<open>
  The tables of the encrypted store that the handlers touch, one list of rows per table.
  Row ids start at 1; \<open>u_id = 0\<close> stands for a \<^verbatim>\<open>User\<close> object that has not been saved
  (\<^verbatim>\<open>id = None\<close>).
\<close>

datatype auth_type = TOTP | WEBAUTHN

record user =
  u_id :: nat
  username :: string
  auth_type :: auth_type
  auth_credential :: string
  can_download :: bool
  is_admin :: bool
  recovery_email :: "string option"
  recovery_phone :: "string option"
  recovery_enabled :: bool
  last_login :: "datetime option"

record session =
  s_id :: nat
  s_user_id :: nat
  s_token_hash :: string
  s_user_agent :: "string option"
  s_ip_address :: "string option"
  s_created_at :: datetime
  last_seen :: datetime

record pending_registration =
  pr_username :: string
  pr_token_hash :: string
  pr_created_at :: datetime
  pr_expires_at :: datetime

record pending_recovery =
  rc_user_id :: nat
  rc_token_hash :: string
  rc_expires_at :: datetime
  rc_used_at :: "datetime option"

record backup_code =
  bc_id :: nat
  bc_user_id :: nat
  bc_code_hash :: string
  bc_used_at :: "datetime option"

datatype inbox_status = UNREAD | READ | REPLIED | ARCHIVED

datatype reply_method = IN_APP | EMAIL

record inbox_message =
  m_id :: nat
  from_user_id :: nat
  message :: string
  reply_via :: reply_method
  reply_email :: "string option"
  status :: inbox_status
  m_created_at :: "datetime option"
  read_at :: "datetime option"
  replied_at :: "datetime option"

record db =
  users :: "user list"
  sessions :: "session list"
  pending_registrations :: "pending_registration list"
  pending_recoveries :: "pending_recovery list"
  backup_codes :: "backup_code list"
  inbox :: "inbox_message list"
  contact_log :: "(nat \<times> datetime) list"

definition empty_db :: db where
  "empty_db =
     \<lparr> users = [], sessions = [], pending_registrations = [], pending_recoveries = [],
       backup_codes = [], inbox = [], contact_log = [] \<rparr>"

text \<open>
  What a handler takes from its surroundings during one request: the clock reading, the
  random values drawn, and the functions of \<^verbatim>\<open>auth.database\<close>, \<^verbatim>\<open>auth.totp\<close> and
  \<^verbatim>\<open>auth.backup_codes\<close> that the handlers import (hashing, TOTP verification and setup,
  code generation), whose sources are not part of the development and are therefore
  parameters. \<open>send_email\<close> is the result of \<^verbatim>\<open>_send_magic_link_email\<close>, which talks
  to the SMTP server and turns every failure into \<^verbatim>\<open>False\<close>.
\<close>

record env =
  now :: datetime
  hash_token :: "string \<Rightarrow> string"
  hash_backup_code :: "string \<Rightarrow> string"
  verify_totp :: "string \<Rightarrow> string \<Rightarrow> bool"
  setup_totp :: "string \<Rightarrow> string \<times> string \<times> string"
  generate_token :: string
  generate_backup_codes :: "string list"
  generate_qr_code :: "string \<Rightarrow> string \<Rightarrow> string"
  send_email :: "string \<Rightarrow> string \<Rightarrow> string \<Rightarrow> nat \<Rightarrow> bool"

definition fresh_id :: "nat list \<Rightarrow> nat" where
  "fresh_id ids = Suc (fold max ids 0)"

subsection \<open>Users\<close>

text \<open>
  Modelled from the spec: \<^verbatim>\<open>UserRepository\<close> of \<^verbatim>\<open>auth/models.py\<close> is missing; it
  looks a user up by the unique, case-sensitive username or by id.
\<close>

definition get_by_username :: "db \<Rightarrow> string \<Rightarrow> user option" where
  "get_by_username d name = find (\<lambda>u. username u = name) (users d)"

definition get_by_id :: "db \<Rightarrow> nat \<Rightarrow> user option" where
  "get_by_id d i = find (\<lambda>u. u_id u = i) (users d)"

text \<open>
  Modelled from the spec: \<^verbatim>\<open>User.save\<close> of \<^verbatim>\<open>auth/models.py\<close> is missing. It is an
  upsert that recomputes \<open>recovery_enabled\<close>; usernames are unique, so a second row with
  a username already present is refused by the store. It returns the object with its id.
\<close>

definition has_contact :: "user \<Rightarrow> bool" where
  "has_contact u =
     ((recovery_email u \<noteq> None \<and> recovery_email u \<noteq> Some []) \<or>
      (recovery_phone u \<noteq> None \<and> recovery_phone u \<noteq> Some []))"

definition user_save :: "db \<Rightarrow> user \<Rightarrow> exn + (db \<times> user)" where
  "user_save d u0 =
     (let u = u0\<lparr>recovery_enabled := has_contact u0\<rparr>
      in if u_id u = 0
         then (if list_ex (\<lambda>r. username r = username u) (users d)
               then Inl IntegrityError
               else (let u' = u\<lparr>u_id := fresh_id (map u_id (users d))\<rparr>
                     in Inr (d\<lparr>users := users d @ [u']\<rparr>, u')))
         else (if list_ex (\<lambda>r. username r = username u \<and> u_id r \<noteq> u_id u) (users d)
               then Inl IntegrityError
               else Inr (d\<lparr>users := map (\<lambda>r. if u_id r = u_id u then u else r) (users d)\<rparr>, u)))"

text \<open>
  Modelled from the spec: \<^verbatim>\<open>User.update_last_login\<close> is missing; it sets
  \<open>last_login = now\<close> on the object and on its row.
\<close>

definition update_last_login :: "env \<Rightarrow> db \<Rightarrow> user \<Rightarrow> db \<times> user" where
  "update_last_login e d u =
     (d\<lparr>users := map (\<lambda>r. if u_id r = u_id u then r\<lparr>last_login := Some (now e)\<rparr> else r) (users d)\<rparr>,
      u\<lparr>last_login := Some (now e)\<rparr>)"

subsection \<open>Sessions\<close>

text \<open>
  Modelled from the spec: \<^verbatim>\<open>Session\<close> and \<^verbatim>\<open>SessionRepository\<close> of
  \<^verbatim>\<open>auth/models.py\<close> are missing. \<open>create_for_user\<close> draws a random token, stores its
  hash and, in the same transaction, invalidates all other sessions of the user;
  \<open>get_by_token\<close> hashes the raw token and looks it up; a session is stale when its
  \<open>last_seen\<close> is older than the grace; \<open>touch\<close> sets \<open>last_seen = now\<close>, at most once
  per 60 seconds; \<open>invalidate\<close> and \<open>invalidate_user_sessions\<close> delete.
\<close>

definition create_for_user ::
  "env \<Rightarrow> db \<Rightarrow> nat \<Rightarrow> string option \<Rightarrow> string option \<Rightarrow> db \<times> session \<times> string" where
  "create_for_user e d uid ua ip =
     (let token = generate_token e;
          row = \<lparr> s_id = fresh_id (map s_id (sessions d)), s_user_id = uid,
                  s_token_hash = hash_token e token, s_user_agent = ua, s_ip_address = ip,
                  s_created_at = now e, last_seen = now e \<rparr>
      in (d\<lparr>sessions := filter (\<lambda>s. s_user_id s \<noteq> uid) (sessions d) @ [row]\<rparr>, row, token))"

definition session_get_by_token :: "env \<Rightarrow> db \<Rightarrow> string \<Rightarrow> session option" where
  "session_get_by_token e d raw = find (\<lambda>s. s_token_hash s = hash_token e raw) (sessions d)"

definition is_stale :: "session \<Rightarrow> nat \<Rightarrow> datetime \<Rightarrow> bool" where
  "is_stale s grace_minutes t = (last_seen s < t - int grace_minutes * 60)"

definition invalidate :: "db \<Rightarrow> session \<Rightarrow> db" where
  "invalidate d s = d\<lparr>sessions := filter (\<lambda>r. s_id r \<noteq> s_id s) (sessions d)\<rparr>"

definition invalidate_user_sessions :: "db \<Rightarrow> nat \<Rightarrow> db" where
  "invalidate_user_sessions d uid = d\<lparr>sessions := filter (\<lambda>r. s_user_id r \<noteq> uid) (sessions d)\<rparr>"

definition touch :: "env \<Rightarrow> db \<Rightarrow> session \<Rightarrow> db \<times> session" where
  "touch e d s =
     (if now e - last_seen s < 60 then (d, s)
      else (d\<lparr>sessions := map (\<lambda>r. if s_id r = s_id s then r\<lparr>last_seen := now e\<rparr> else r) (sessions d)\<rparr>,
            s\<lparr>last_seen := now e\<rparr>))"

subsection \<open>Pending registrations and recoveries\<close>

text \<open>
  Modelled from the spec: \<^verbatim>\<open>PendingRegistration\<close>, \<^verbatim>\<open>PendingRecovery\<close> and their
  repositories are missing. A row holds the hash of its token and an expiry and is
  identified by that hash; lookup is by the hash of the raw token; \<open>consume\<close> deletes a
  registration, after which no lookup reaches it; a recovery is marked used rather than
  deleted, and creating one removes the user's earlier ones.
\<close>

definition reg_get_by_token :: "env \<Rightarrow> db \<Rightarrow> string \<Rightarrow> pending_registration option" where
  "reg_get_by_token e d raw =
     find (\<lambda>r. pr_token_hash r = hash_token e raw) (pending_registrations d)"

definition reg_is_expired :: "env \<Rightarrow> pending_registration \<Rightarrow> bool" where
  "reg_is_expired e r = (pr_expires_at r < now e)"

definition reg_consume :: "db \<Rightarrow> pending_registration \<Rightarrow> db" where
  "reg_consume d r =
     d\<lparr>pending_registrations :=
         filter (\<lambda>x. pr_token_hash x \<noteq> pr_token_hash r) (pending_registrations d)\<rparr>"


definition recovery_delete_for_user :: "db \<Rightarrow> nat \<Rightarrow> db" where
  "recovery_delete_for_user d uid =
     d\<lparr>pending_recoveries := filter (\<lambda>r. rc_user_id r \<noteq> uid) (pending_recoveries d)\<rparr>"

definition recovery_create :: "env \<Rightarrow> db \<Rightarrow> nat \<Rightarrow> nat \<Rightarrow> db \<times> pending_recovery \<times> string" where
  "recovery_create e d uid expiry_minutes =
     (let token = generate_token e;
          row = \<lparr> rc_user_id = uid, rc_token_hash = hash_token e token,
                  rc_expires_at = now e + int expiry_minutes * 60, rc_used_at = None \<rparr>
      in (d\<lparr>pending_recoveries :=
               filter (\<lambda>r. rc_user_id r \<noteq> uid) (pending_recoveries d) @ [row]\<rparr>, row, token))"




subsection \<open>Backup codes\<close>

text \<open>
  Modelled from the spec: \<^verbatim>\<open>auth/backup_codes.py\<close> is missing. Input is normalised
  (whitespace and hyphens removed, letters in upper case) before it is hashed and compared
  with the unused codes of the user; \<open>verify_and_consume\<close> checks and marks used in one
  transaction, the update being by row id and guarded by \<open>used_at IS NULL\<close>;
  \<open>create_codes_for_user\<close> deletes the unused codes of the user, inserts the freshly
  generated set and returns its plaintext.
\<close>

definition upper_char :: "char \<Rightarrow> char" where
  "upper_char c =
     (let n = (of_char c :: nat)
      in if 97 \<le> n \<and> n \<le> 122 then char_of (n - 32) else c)"

definition normalize_code :: "string \<Rightarrow> string" where
  "normalize_code s = map upper_char (filter (\<lambda>c. \<not> isspace c \<and> c \<noteq> CHR ''-'') s)"

definition code_matches :: "env \<Rightarrow> nat \<Rightarrow> string \<Rightarrow> backup_code \<Rightarrow> bool" where
  "code_matches e uid code r =
     (bc_user_id r = uid \<and> bc_used_at r = None \<and>
      bc_code_hash r = hash_backup_code e (normalize_code code))"

definition verify_and_consume :: "env \<Rightarrow> db \<Rightarrow> nat \<Rightarrow> string \<Rightarrow> db \<times> bool" where
  "verify_and_consume e d uid code =
     (case find (code_matches e uid code) (backup_codes d) of
        None \<Rightarrow> (d, False)
      | Some row \<Rightarrow>
          (d\<lparr>backup_codes :=
               map (\<lambda>r. if bc_id r = bc_id row \<and> bc_used_at r = None
                        then r\<lparr>bc_used_at := Some (now e)\<rparr> else r) (backup_codes d)\<rparr>,
           True))"

definition get_remaining_count :: "db \<Rightarrow> nat \<Rightarrow> nat" where
  "get_remaining_count d uid =
     length (filter (\<lambda>r. bc_user_id r = uid \<and> bc_used_at r = None) (backup_codes d))"

definition create_codes_for_user :: "env \<Rightarrow> db \<Rightarrow> nat \<Rightarrow> db \<times> string list" where
  "create_codes_for_user e d uid =
     (let kept = filter (\<lambda>r. \<not> (bc_user_id r = uid \<and> bc_used_at r = None)) (backup_codes d);
          codes = generate_backup_codes e;
          base = fresh_id (map bc_id kept);
          rows = map (\<lambda>(i, c). \<lparr> bc_id = i, bc_user_id = uid,
                                 bc_code_hash = hash_backup_code e (normalize_code c),
                                 bc_used_at = None \<rparr>)
                   (zip [base ..< base + length codes] codes)
      in (d\<lparr>backup_codes := kept @ rows\<rparr>, codes))"

subsection \<open>Inbox\<close>

text \<open>
  Modelled from the spec: \<^verbatim>\<open>InboxMessage\<close> and \<^verbatim>\<open>InboxRepository\<close> of
  \<^verbatim>\<open>auth/models.py\<close> are missing; \<^verbatim>\<open>tests/test_inbox.py\<close> exercises them. Saving a new
  message stores it and appends to the contact log; \<open>mark_read\<close> and \<open>mark_replied\<close>
  change the object and its row in one update, and \<open>mark_replied\<close> sets \<open>reply_email\<close>
  to NULL together with the status.
\<close>

definition inbox_save :: "env \<Rightarrow> db \<Rightarrow> inbox_message \<Rightarrow> db \<times> inbox_message" where
  "inbox_save e d m =
     (if m_id m = 0
      then (let m' = m\<lparr>m_id := fresh_id (map m_id (inbox d)), m_created_at := Some (now e)\<rparr>
            in (d\<lparr>inbox := inbox d @ [m'],
                  contact_log := contact_log d @ [(from_user_id m, now e)]\<rparr>, m'))
      else (d\<lparr>inbox := map (\<lambda>r. if m_id r = m_id m then m else r) (inbox d)\<rparr>, m))"

definition inbox_get_by_id :: "db \<Rightarrow> nat \<Rightarrow> inbox_message option" where
  "inbox_get_by_id d i = find (\<lambda>r. m_id r = i) (inbox d)"

definition mark_read :: "env \<Rightarrow> db \<Rightarrow> inbox_message \<Rightarrow> db \<times> inbox_message" where
  "mark_read e d m =
     (d\<lparr>inbox := map (\<lambda>r. if m_id r = m_id m
                           then r\<lparr>status := READ, read_at := Some (now e)\<rparr> else r) (inbox d)\<rparr>,
      m\<lparr>status := READ, read_at := Some (now e)\<rparr>)"

definition mark_replied :: "env \<Rightarrow> db \<Rightarrow> inbox_message \<Rightarrow> db \<times> inbox_message" where
  "mark_replied e d m =
     (d\<lparr>inbox := map (\<lambda>r. if m_id r = m_id m
                           then r\<lparr>status := REPLIED, replied_at := Some (now e), reply_email := None\<rparr>
                           else r) (inbox d)\<rparr>,
      m\<lparr>status := REPLIED, replied_at := Some (now e), reply_email := None\<rparr>)"

section \<open>Guards\<close>

subsection \<open>\<^verbatim>\<open>localhost_only\<close>\<close>

definition localhost_names :: "string option set" where
  "localhost_names = {Some ''127.0.0.1'', Some ''::1'', Some ''localhost''}"

text \<open>
  The decorator as written: the peer address is tested first; the forwarding header is
  consulted only when the peer is not local, and then replaces the address that is tested.
\<close>

definition localhost_only ::
  "(request \<Rightarrow> 'db \<Rightarrow> 'db \<times> outcome) \<Rightarrow> request \<Rightarrow> 'db \<Rightarrow> 'db \<times> outcome" where
  "localhost_only f req db =
     (let addr = remote_addr req in
      if addr \<notin> localhost_names then
        (let forwarded = (case x_forwarded_for req of None \<Rightarrow> [] | Some v \<Rightarrow> v);
             addr' = (if forwarded \<noteq> [] then Some (strip (split_comma_first forwarded)) else addr)
         in if addr' \<notin> localhost_names
            then (db, error_response 404 ''Access denied'')
            else f req db)
      else f req db)"

text \<open>
  The guard as the specification words it: the client address is the first entry of
  \<^verbatim>\<open>X-Forwarded-For\<close> when the header is present and the peer address otherwise, and
  the request is rejected exactly when that address is neither 127.0.0.1 nor ::1.
\<close>

definition spec_client_addr :: "request \<Rightarrow> string option" where
  "spec_client_addr req =
     (case x_forwarded_for req of
        None \<Rightarrow> remote_addr req
      | Some v \<Rightarrow> Some (strip (split_comma_first v)))"

definition spec_localhost_rejects :: "request \<Rightarrow> bool" where
  "spec_localhost_rejects req = (spec_client_addr req \<notin> {Some ''127.0.0.1'', Some ''::1''})"

text \<open>What the code rejects.\<close>

definition localhost_denied :: "request \<Rightarrow> bool" where
  "localhost_denied req =
     (remote_addr req \<notin> localhost_names \<and>
      (case x_forwarded_for req of
         None \<Rightarrow> True
       | Some v \<Rightarrow> v = [] \<or> Some (strip (split_comma_first v)) \<notin> localhost_names))"

definition probe_handler :: "request \<Rightarrow> nat \<Rightarrow> nat \<times> outcome" where
  "probe_handler req db = (Suc db, jsonify 200 [(''success'', JBool True)])"

definition remote_request :: request where
  "remote_request =
     \<lparr> body = None, session_cookie = None, remote_addr = Some ''10.0.0.5'',
       user_agent = None, x_forwarded_for = Some ''8.8.8.8, 127.0.0.1'' \<rparr>"

definition proxied_request :: request where
  "proxied_request =
     \<lparr> body = None, session_cookie = None, remote_addr = Some ''127.0.0.1'',
       user_agent = None, x_forwarded_for = Some ''8.8.8.8'' \<rparr>"

section \<open>Session middleware\<close>

text \<open>
  Flask's request-scoped \<^verbatim>\<open>g\<close>: \<open>None\<close> while \<^verbatim>\<open>g._current_user\<close> is not set, and the
  memoised pair afterwards.
\<close>

record g_ctx =
  current_user :: "user option"
  current_session :: "session option"

definition get_current_user ::
  "env \<Rightarrow> request \<Rightarrow> g_ctx option \<times> db \<Rightarrow> (g_ctx option \<times> db) \<times> user option" where
  "get_current_user e req st =
     (case fst st of
        Some c \<Rightarrow> (st, current_user c)
      | None \<Rightarrow>
          (let g0 = Some \<lparr> current_user = None, current_session = None \<rparr>; d = snd st
           in case session_cookie req of
                None \<Rightarrow> ((g0, d), None)
              | Some token \<Rightarrow>
                  if token = [] then ((g0, d), None)
                  else (case session_get_by_token e d token of
                          None \<Rightarrow> ((g0, d), None)
                        | Some sess \<Rightarrow>
                            if is_stale sess 30 (now e) then ((g0, invalidate d sess), None)
                            else (case get_by_id d (s_user_id sess) of
                                    None \<Rightarrow> ((g0, invalidate d sess), None)
                                  | Some u \<Rightarrow>
                                      (let (d', sess') = touch e d sess
                                       in ((Some \<lparr> current_user = Some u,
                                                   current_session = Some sess' \<rparr>, d'),
                                           Some u))))))"


section \<open>Endpoints\<close>

definition user_json :: "user \<Rightarrow> json" where
  "user_json u =
     JObj [(''id'', JInt (int (u_id u))), (''username'', JStr (username u)),
           (''can_download'', JBool (can_download u)), (''is_admin'', JBool (is_admin u))]"

subsection \<open>POST /login and /logout\<close>

text \<open>Lines 344 to 367 of the handler: what follows a verified code.\<close>

definition login_session :: "env \<Rightarrow> request \<Rightarrow> db \<Rightarrow> user \<Rightarrow> db \<times> outcome" where
  "login_session e req d u =
     (let (d1, sess, token) = create_for_user e d (u_id u) (user_agent req) (remote_addr req);
          (d2, u') = update_last_login e d1 u
      in (d2, Response 200 (JObj [(''success'', JBool True), (''user'', user_json u')])
                (SetCookie token None)))"

definition login :: "env \<Rightarrow> request \<Rightarrow> db \<Rightarrow> db \<times> outcome" where
  "login e req d =
     (case body req of
        None \<Rightarrow> (d, error_response 400 ''Request body required'')
      | Some data \<Rightarrow>
          if data = [] then (d, error_response 400 ''Request body required'')
          else (case get_stripped data ''username'' [] of
                  Inl x \<Rightarrow> (d, Raised x)
                | Inr uname \<Rightarrow>
                   (case get_stripped data ''code'' [] of
                      Inl x \<Rightarrow> (d, Raised x)
                    | Inr code \<Rightarrow>
                        if uname = [] \<or> code = []
                        then (d, error_response 400 ''Username and code are required'')
                        else (case get_by_username d uname of
                                None \<Rightarrow> (d, error_response 401 ''Invalid credentials'')
                              | Some u \<Rightarrow>
                                  if auth_type u = TOTP
                                  then (if \<not> verify_totp e (auth_credential u) code
                                        then (d, error_response 401 ''Invalid credentials'')
                                        else login_session e req d u)
                                  else (d, error_response 400 ''Authentication method not supported'')))))"


subsection \<open>POST /register/verify\<close>

definition or_none :: "string \<Rightarrow> string option" where
  "or_none s = (if s = [] then None else Some s)"

definition warning_with_contact :: string where
  "warning_with_contact =
     ''Save your backup codes in a safe place. You can also recover your account '' @
     ''using your registered email/phone if you lose access to your authenticator.''"

definition warning_codes_only :: string where
  "warning_codes_only =
     ''IMPORTANT: Save these backup codes in a safe place! Without stored contact '' @
     ''information, these codes are your ONLY way to recover your account if you '' @
     ''lose your authenticator. Each code can only be used once.''"

definition verify_registration :: "env \<Rightarrow> request \<Rightarrow> db \<Rightarrow> db \<times> outcome" where
  "verify_registration e req d =
     (case body req of
        None \<Rightarrow> (d, error_response 400 ''Request body required'')
      | Some data \<Rightarrow>
          if data = [] then (d, error_response 400 ''Request body required'')
          else (case get_stripped data ''token'' [] of
                  Inl x \<Rightarrow> (d, Raised x)
                | Inr token \<Rightarrow>
          (case get_stripped data ''auth_type'' ''totp'' of
                  Inl x \<Rightarrow> (d, Raised x)
                | Inr at \<Rightarrow>
          (case get_stripped data ''recovery_email'' [] of
                  Inl x \<Rightarrow> (d, Raised x)
                | Inr em \<Rightarrow>
          (case get_stripped data ''recovery_phone'' [] of
                  Inl x \<Rightarrow> (d, Raised x)
                | Inr ph \<Rightarrow>
             (let include_qr = (case dict_get data ''include_qr'' of None \<Rightarrow> False | Some v \<Rightarrow> truthy v);
                  r_email = or_none em;
                  r_phone = or_none ph;
                  r_enabled = (r_email \<noteq> None \<or> r_phone \<noteq> None)
              in if token = [] then (d, error_response 400 ''Verification token required'')
                 else if lower at \<noteq> ''totp''
                 then (d, error_response 400 (''Unsupported auth type. Use '' @ [CHR 0x27] @ ''totp'' @ [CHR 0x27] @ ''.''))
                 else (case reg_get_by_token e d token of
                         None \<Rightarrow> (d, error_response 400 ''Invalid or expired verification token'')
                       | Some reg \<Rightarrow>
                           if reg_is_expired e reg
                           then (reg_consume d reg, error_response 400 ''Verification token has expired'')
                           else (let (secret, base32_secret, uri) = setup_totp e (pr_username reg);
                                     u0 = \<lparr> u_id = 0, username = pr_username reg, auth_type = TOTP,
                                            auth_credential = secret, can_download = True,
                                            is_admin = False, recovery_email = r_email,
                                            recovery_phone = r_phone, recovery_enabled = r_enabled,
                                            last_login = None \<rparr>
                                 in case user_save d u0 of
                                      Inl x \<Rightarrow> (d, Raised x)
                                    | Inr (d1, u) \<Rightarrow>
                                        (let (d2, codes) = create_codes_for_user e d1 (u_id u);
                                             d3 = reg_consume d2 reg
                                         in (d3, jsonify 200
                                              ([(''success'', JBool True),
                                                (''username'', JStr (username u)),
                                                (''user_id'', JInt (int (u_id u))),
                                                (''totp_secret'', JStr base32_secret),
                                                (''totp_uri'', JStr uri),
                                                (''backup_codes'', JList (map JStr codes)),
                                                (''recovery_enabled'', JBool r_enabled),
                                                (''message'', JStr (''Account created. Scan the QR code or enter '' @
                                                   ''the secret in your authenticator app.'')),
                                                (''warning'', JStr (if r_enabled then warning_with_contact
                                                                   else warning_codes_only))] @
                                               (if include_qr
                                                then [(''totp_qr'', JStr (b64encode (generate_qr_code e secret (username u))))]
                                                else []))))))))))))"

subsection \<open>POST /recover/backup-code\<close>

text \<open>
  A write to the store can fail (the \<open>StoreError\<close> of the error taxonomy, which the
  gateway turns into a 500). \<open>failing\<close> names the writes that fail during the request.
  The handler calls the repositories one after the other on the database handle, with no
  transaction around the calls: what an earlier call has written stays written when a
  later one raises.
\<close>

datatype store_op = SaveUser | CreateCodes | InvalidateSessions

definition warning_recovered_codes_only :: string where
  "warning_recovered_codes_only =
     ''Your old backup codes have been invalidated. Save these new codes '' @
     ''in a safe place - they are your only recovery option if you lose '' @
     ''your authenticator again.''"

definition warning_recovered_contact :: string where
  "warning_recovered_contact =
     ''Your old backup codes have been invalidated. You can also recover '' @
     ''using your registered email/phone if needed.''"

text \<open>Lines 688 to 722 of the handler: what follows a consumed code.\<close>

definition recover_rotate :: "store_op set \<Rightarrow> env \<Rightarrow> db \<Rightarrow> user \<Rightarrow> db \<times> outcome" where
  "recover_rotate failing e d1 u =
     (let remaining = get_remaining_count d1 (u_id u);
          (secret, base32_secret, uri) = setup_totp e (username u);
          u1 = u\<lparr>auth_credential := secret, auth_type := TOTP\<rparr>
      in if SaveUser \<in> failing then (d1, Raised StoreError)
         else (case user_save d1 u1 of
                 Inl x \<Rightarrow> (d1, Raised x)
               | Inr (d2, u2) \<Rightarrow>
                   if CreateCodes \<in> failing then (d2, Raised StoreError)
                   else (let (d3, new_backup_codes) = create_codes_for_user e d2 (u_id u2)
                         in if InvalidateSessions \<in> failing then (d3, Raised StoreError)
                            else (invalidate_user_sessions d3 (u_id u2),
                                  jsonify 200
                                    [(''success'', JBool True),
                                     (''username'', JStr (username u2)),
                                     (''totp_secret'', JStr base32_secret),
                                     (''totp_uri'', JStr uri),
                                     (''backup_codes'', JList (map JStr new_backup_codes)),
                                     (''remaining_old_codes'', JInt (int remaining)),
                                     (''message'', JStr (''Account recovered. Set up your new '' @
                                        ''authenticator and save your new backup codes.'')),
                                     (''warning'', JStr (if \<not> recovery_enabled u2
                                                        then warning_recovered_codes_only
                                                        else warning_recovered_contact))]))))"

definition recover_with_backup_code ::
  "store_op set \<Rightarrow> env \<Rightarrow> request \<Rightarrow> db \<Rightarrow> db \<times> outcome" where
  "recover_with_backup_code failing e req d =
     (case body req of
        None \<Rightarrow> (d, error_response 400 ''Request body required'')
      | Some data \<Rightarrow>
          if data = [] then (d, error_response 400 ''Request body required'')
          else (case get_stripped data ''username'' [] of
                  Inl x \<Rightarrow> (d, Raised x)
                | Inr uname \<Rightarrow>
                   (case get_stripped data ''backup_code'' [] of
                      Inl x \<Rightarrow> (d, Raised x)
                    | Inr code \<Rightarrow>
                        if uname = [] \<or> code = []
                        then (d, error_response 400 ''Username and backup_code are required'')
                        else (case get_by_username d uname of
                                None \<Rightarrow> (d, error_response 401 ''Invalid username or backup code'')
                              | Some u \<Rightarrow>
                                  (let (d1, ok) = verify_and_consume e d (u_id u) code
                                   in if \<not> ok
                                      then (d1, error_response 401 ''Invalid username or backup code'')
                                      else recover_rotate failing e d1 u)))))"

subsection \<open>POST /magic-link and /magic-link/verify\<close>

datatype log_entry = MagicLinkSendFailed nat

definition generic_message :: string where
  "generic_message =
     ''If an account exists with that username and has a registered email, '' @
     ''a login link has been sent. Please check your email.''"

definition generic_success :: outcome where
  "generic_success = jsonify 200 [(''success'', JBool True), (''message'', JStr generic_message)]"

text \<open>The third component is what the handler writes to the application log.\<close>

definition request_magic_link :: "env \<Rightarrow> request \<Rightarrow> db \<Rightarrow> db \<times> outcome \<times> log_entry list" where
  "request_magic_link e req d =
     (case body req of
        None \<Rightarrow> (d, error_response 400 ''Request body required'', [])
      | Some data \<Rightarrow>
          if data = [] then (d, error_response 400 ''Request body required'', [])
          else (case get_stripped data ''username'' [] of
                  Inl x \<Rightarrow> (d, Raised x, [])
                | Inr uname \<Rightarrow>
                    if uname = [] then (d, error_response 400 ''Username is required'', [])
                    else (case get_by_username d uname of
                            None \<Rightarrow> (d, generic_success, [])
                          | Some u \<Rightarrow>
                              if \<not> recovery_enabled u \<or> recovery_email u = None \<or> recovery_email u = Some []
                              then (d, generic_success, [])
                              else (let d1 = recovery_delete_for_user d (u_id u);
                                        (d2, recovery, raw_token) = recovery_create e d1 (u_id u) 15;
                                        magic_link_url = ''/verify.html?token='' @ raw_token;
                                        email_sent = send_email e (case recovery_email u of None \<Rightarrow> [] | Some a \<Rightarrow> a)
                                                       (username u) magic_link_url 15
                                    in if email_sent then (d2, generic_success, [])
                                       else (d2, generic_success, [MagicLinkSendFailed (u_id u)])))))"


section \<open>Reachable states of the session table\<close>


definition sessions_of :: "db \<Rightarrow> nat \<Rightarrow> session list" where
  "sessions_of d uid = filter (\<lambda>s. s_user_id s = uid) (sessions d)"


section \<open>A small concrete system\<close>

text \<open>
  One clock reading, one draw of each random value and simple stand-ins for the hashing
  and TOTP functions, used to run the handlers on concrete requests.
\<close>

definition env0 :: env where
  "env0 =
     \<lparr> now = 1000,
       hash_token = (\<lambda>t. ''h:'' @ t),
       hash_backup_code = (\<lambda>c. ''b:'' @ c),
       verify_totp = (\<lambda>secret code. code = ''123456''),
       setup_totp = (\<lambda>name. (''secret-new'', ''ONSWG4TFOQWW4ZLX'', ''otpauth://totp/Library:'' @ name)),
       generate_token = ''token-1'',
       generate_backup_codes = [''AAAA-0000-0000-0001'', ''AAAA-0000-0000-0002''],
       generate_qr_code = (\<lambda>secret name. ''png''),
       send_email = (\<lambda>to_email name link minutes. True) \<rparr>"

definition alice :: user where
  "alice =
     \<lparr> u_id = 1, username = ''alice'', auth_type = TOTP, auth_credential = ''secret-old'',
       can_download = False, is_admin = False, recovery_email = Some ''alice@example.com'',
       recovery_phone = None, recovery_enabled = True, last_login = None \<rparr>"

definition alice_code :: backup_code where
  "alice_code = \<lparr> bc_id = 1, bc_user_id = 1, bc_code_hash = ''b:ZZZZ111122223333'', bc_used_at = None \<rparr>"

definition db_alice :: db where
  "db_alice = empty_db\<lparr>users := [alice], backup_codes := [alice_code]\<rparr>"

definition json_request :: "(string \<times> json) list \<Rightarrow> request" where
  "json_request data =
     \<lparr> body = Some data, session_cookie = None, remote_addr = Some ''10.0.0.5'',
       user_agent = Some ''curl'', x_forwarded_for = None \<rparr>"

definition login_request :: request where
  "login_request = json_request [(''username'', JStr ''alice''), (''code'', JStr '' 123456 '')]"

definition msg1 :: inbox_message where
  "msg1 =
     \<lparr> m_id = 1, from_user_id = 1, message = ''Please email me'', reply_via = EMAIL,
       reply_email = Some ''sensitive@example.com'', status = UNREAD,
       m_created_at = Some 900, read_at = None, replied_at = None \<rparr>"

definition db_inbox :: db where
  "db_inbox = db_alice\<lparr>inbox := [msg1]\<rparr>"

text \<open>Two sessions of alice: one seen a minute ago, one seen an hour ago.\<close>

definition fresh_session :: session where
  "fresh_session =
     \<lparr> s_id = 1, s_user_id = 1, s_token_hash = ''h:cookie-a'', s_user_agent = None,
       s_ip_address = None, s_created_at = 0, last_seen = 940 \<rparr>"

definition stale_session :: session where
  "stale_session =
     \<lparr> s_id = 2, s_user_id = 1, s_token_hash = ''h:cookie-b'', s_user_agent = None,
       s_ip_address = None, s_created_at = -9000, last_seen = -2600 \<rparr>"

definition cookie_request :: "string \<Rightarrow> request" where
  "cookie_request token =
     \<lparr> body = None, session_cookie = Some token, remote_addr = Some ''10.0.0.5'',
       user_agent = Some ''curl'', x_forwarded_for = None \<rparr>"

definition g_none :: "g_ctx option" where
  "g_none = Some \<lparr> current_user = None, current_session = None \<rparr>"

text \<open>Two pending registrations, the first of them past its expiry at time 1000.\<close>

definition pending_old :: pending_registration where
  "pending_old =
     \<lparr> pr_username = ''carol'', pr_token_hash = ''h:reg-0'', pr_created_at = 0, pr_expires_at = 900 \<rparr>"

definition pending_new :: pending_registration where
  "pending_new =
     \<lparr> pr_username = ''bobby'', pr_token_hash = ''h:reg-1'', pr_created_at = 700, pr_expires_at = 1600 \<rparr>"

definition db_pending :: db where
  "db_pending = db_alice\<lparr>pending_registrations := [pending_old, pending_new]\<rparr>"

definition verify_request :: "string \<Rightarrow> request" where
  "verify_request token =
     json_request [(''token'', JStr token), (''auth_type'', JStr ''TOTP''),
                   (''is_admin'', JBool True), (''can_download'', JBool False)]"

text \<open>
  The condition of the magic-link protocol on the named user: the user exists, has
  \<open>recovery_enabled\<close> set and a non-empty recovery email.
\<close>

definition has_recovery_email :: "db \<Rightarrow> string \<Rightarrow> bool" where
  "has_recovery_email d name =
     (case get_by_username d name of
        None \<Rightarrow> False
      | Some u \<Rightarrow> recovery_enabled u \<and> recovery_email u \<noteq> None \<and> recovery_email u \<noteq> Some [])"

text \<open>The row that \<^verbatim>\<open>PendingRecovery.create(db, user.id, expiry_minutes=15)\<close> inserts.\<close>

definition new_recovery :: "env \<Rightarrow> nat \<Rightarrow> pending_recovery" where
  "new_recovery e uid =
     \<lparr> rc_user_id = uid, rc_token_hash = hash_token e (generate_token e),
       rc_expires_at = now e + 15 * 60, rc_used_at = None \<rparr>"

definition dave :: user where
  "dave =
     \<lparr> u_id = 2, username = ''dave5'', auth_type = TOTP, auth_credential = ''secret-d'',
       can_download = True, is_admin = False, recovery_email = None,
       recovery_phone = None, recovery_enabled = False, last_login = None \<rparr>"

definition db_two :: db where
  "db_two = db_alice\<lparr>users := [alice, dave]\<rparr>"

definition magic_request :: "string \<Rightarrow> request" where
  "magic_request name = json_request [(''username'', JStr name)]"

definition env_nomail :: env where
  "env_nomail = env0\<lparr>send_email := (\<lambda>to_email name link minutes. False)\<rparr>"

text \<open>
  A field of the request body as the handlers read it (stripped; empty when the field or
  the body is missing), and the body of a response.
\<close>

definition request_field :: "request \<Rightarrow> string \<Rightarrow> string" where
  "request_field req key =
     (case body req of
        None \<Rightarrow> []
      | Some data \<Rightarrow> (case get_stripped data key [] of Inl x \<Rightarrow> [] | Inr s \<Rightarrow> s))"

definition response_body :: "outcome \<Rightarrow> json option" where
  "response_body r = (case r of Response st b c \<Rightarrow> Some b | Raised x \<Rightarrow> None)"

definition bad_login_request :: request where
  "bad_login_request = json_request [(''username'', JStr ''alice''), (''code'', JStr ''000000'')]"

definition bad_recover_request :: request where
  "bad_recover_request =
     json_request [(''username'', JStr ''alice''), (''backup_code'', JStr ''XXXX-XXXX-XXXX-XXXX'')]"

text \<open>
  A series of recovery requests with the same body, each with its own clock reading,
  random draws and failing writes; the answers are collected in order.
\<close>

fun recover_attempts :: "(store_op set \<times> env) list \<Rightarrow> request \<Rightarrow> db \<Rightarrow> db \<times> outcome list" where
  "recover_attempts [] req d = (d, [])"
| "recover_attempts ((failing, e) # rest) req d =
     (let (d1, r) = recover_with_backup_code failing e req d;
          (d2, rs) = recover_attempts rest req d1
      in (d2, r # rs))"

definition recover_request :: request where
  "recover_request =
     json_request [(''username'', JStr ''alice''), (''backup_code'', JStr ''zzzz-1111-2222-3333'')]"

text \<open>The store after alice's recovery with her backup code at time 1000.\<close>

definition db_recovered :: db where
  "db_recovered = db_alice\<lparr>
     users := [alice\<lparr>auth_credential := ''secret-new''\<rparr>],
     backup_codes :=
       [alice_code\<lparr>bc_used_at := Some 1000\<rparr>,
        \<lparr> bc_id = 2, bc_user_id = 1, bc_code_hash = ''b:AAAA000000000001'', bc_used_at = None \<rparr>,
        \<lparr> bc_id = 3, bc_user_id = 1, bc_code_hash = ''b:AAAA000000000002'', bc_used_at = None \<rparr>]\<rparr>"

definition unauthorized :: outcome where
  "unauthorized = error_response 401 ''Invalid username or backup code''"

text \<open>The user's unused backup codes, as stored.\<close>

definition unused_codes :: "db \<Rightarrow> nat \<Rightarrow> backup_code list" where
  "unused_codes d uid = filter (\<lambda>r. bc_user_id r = uid \<and> bc_used_at r = None) (backup_codes d)"

section \<open>Properties of the guards\<close>

lemma strip_plain_ip [simp]: "strip ''8.8.8.8'' = ''8.8.8.8''"
  by (simp add: strip_def isspace_def)

text \<open>
  C7, as stated, fails. A request that reaches the server from a local proxy
  (peer 127.0.0.1) with \<^verbatim>\<open>X-Forwarded-For: 8.8.8.8\<close> has client address 8.8.8.8, which
  the specification's rule rejects, yet the guard runs the wrapped handler: the header is
  not read at all when the peer address is local.
\<close>

theorem localhost_only_counterexample:
  "spec_localhost_rejects proxied_request \<and>
   localhost_only probe_handler proxied_request 0 = probe_handler proxied_request 0 \<and>
   probe_handler proxied_request 0 \<noteq> (0, error_response 404 ''Access denied'')"
  by (simp add: spec_localhost_rejects_def spec_client_addr_def proxied_request_def
      split_comma_first_def localhost_only_def localhost_names_def probe_handler_def
      error_response_def jsonify_def)

text \<open>
  C7, amended: the guard answers 404 (leaving the store untouched) exactly when the peer
  address is none of 127.0.0.1, ::1, localhost and, in addition, the forwarding header is
  absent, empty, or its first entry (stripped) is none of these three names; in every
  other case the wrapped handler runs on the request.
\<close>

theorem localhost_only_decision:
  "localhost_only f req db =
     (if localhost_denied req then (db, error_response 404 ''Access denied'') else f req db)"
  by (auto simp: localhost_only_def localhost_denied_def Let_def split: option.splits)

theorem localhost_only_decision_witness:
  "localhost_denied remote_request \<and>
   localhost_only probe_handler remote_request 0 = (0, error_response 404 ''Access denied'')"
proof -
  have d: "localhost_denied remote_request"
    by (simp add: localhost_denied_def remote_request_def localhost_names_def
        split_comma_first_def)
  show ?thesis
    using d localhost_only_decision [of probe_handler remote_request 0] by simp
qed

section \<open>The single-session invariant\<close>
























lemma strip_code [simp]: "strip '' 123456 '' = ''123456''"
  by (simp add: strip_def isspace_def)

lemma strip_alice [simp]: "strip ''alice'' = ''alice''"
  by (simp add: strip_def isspace_def)

lemma login_alice:
  "login env0 login_request db_alice =
    (db_alice\<lparr>users := [alice\<lparr>last_login := Some 1000\<rparr>],
      sessions := [\<lparr> s_id = 1, s_user_id = 1, s_token_hash = ''h:token-1'', s_user_agent = Some ''curl'',
         s_ip_address = Some ''10.0.0.5'', s_created_at = 1000, last_seen = 1000 \<rparr>]\<rparr>,
     Response 200 (JObj [(''success'', JBool True), (''user'', user_json (alice\<lparr>last_login := Some 1000\<rparr>))])
       (SetCookie ''token-1'' None))"
  by (simp add: login_def login_request_def json_request_def get_stripped_def dict_get_def get_by_username_def
      db_alice_def empty_db_def alice_def env0_def login_session_def create_for_user_def
      update_last_login_def fresh_id_def Let_def)



section \<open>Inbox: clearing the reply address\<close>

lemma find_map_same:
  "(\<And>x. P (f x) = P x) \<Longrightarrow> find P (map f xs) = map_option f (find P xs)"
  by (induction xs) auto

text \<open>
  C8: after \<open>mark_replied\<close> the message object and its stored row both have status
  REPLIED and no reply email, whatever the reply method and the earlier address were; the
  row changes in a single update of the store.
\<close>

theorem mark_replied_clears_email:
  assumes "inbox_get_by_id d (m_id m) = Some r"
  shows "status (snd (mark_replied e d m)) = REPLIED \<and>
         reply_email (snd (mark_replied e d m)) = None \<and>
         inbox_get_by_id (fst (mark_replied e d m)) (m_id m) =
           Some (r\<lparr>status := REPLIED, replied_at := Some (now e), reply_email := None\<rparr>)"
proof -
  let ?f = "\<lambda>r. if m_id r = m_id m
                 then r\<lparr>status := REPLIED, replied_at := Some (now e), reply_email := None\<rparr> else r"
  have "find (\<lambda>r. m_id r = m_id m) (map ?f (inbox d)) = map_option ?f (find (\<lambda>r. m_id r = m_id m) (inbox d))"
    by (rule find_map_same) simp
  moreover have "m_id r = m_id m"
    using assms by (auto simp: inbox_get_by_id_def find_Some_iff)
  ultimately show ?thesis
    using assms by (simp add: mark_replied_def inbox_get_by_id_def)
qed

theorem mark_replied_clears_email_witness:
  "inbox_get_by_id db_inbox (m_id msg1) = Some msg1 \<and>
   reply_email msg1 = Some ''sensitive@example.com'' \<and>
   status (snd (mark_replied env0 db_inbox msg1)) = REPLIED \<and>
   reply_email (snd (mark_replied env0 db_inbox msg1)) = None \<and>
   inbox_get_by_id (fst (mark_replied env0 db_inbox msg1)) 1 =
     Some (msg1\<lparr>status := REPLIED, replied_at := Some 1000, reply_email := None\<rparr>)"
proof -
  have h: "inbox_get_by_id db_inbox (m_id msg1) = Some msg1"
    by (simp add: inbox_get_by_id_def db_inbox_def msg1_def)
  show ?thesis
    using h mark_replied_clears_email [OF h, of env0]
    by (simp add: msg1_def env0_def)
qed

section \<open>Session resolution and staleness\<close>

lemma invalidate_removes: "s \<notin> set (sessions (invalidate d s))"
  by (simp add: invalidate_def)

lemma touch_keeps_ids: "map s_id (sessions (fst (touch e d s))) = map s_id (sessions d)"
  by (simp add: touch_def)

lemma token_after_touch:
  assumes "session_get_by_token e d token = Some sess"
  shows "session_get_by_token e (fst (touch e d sess)) token = Some (snd (touch e d sess))"
proof (cases "now e - last_seen sess < 60")
  case True
  then show ?thesis using assms by (simp add: touch_def)
next
  case False
  let ?f = "\<lambda>r. if s_id r = s_id sess then r\<lparr>last_seen := now e\<rparr> else r"
  have "find (\<lambda>s. s_token_hash s = hash_token e token) (map ?f (sessions d))
          = map_option ?f (find (\<lambda>s. s_token_hash s = hash_token e token) (sessions d))"
    by (rule find_map_same) simp
  then show ?thesis using assms False
    by (simp add: touch_def session_get_by_token_def)
qed

lemma fresh_after_touch:
  "\<not> is_stale sess 30 (now e) \<Longrightarrow> \<not> is_stale (snd (touch e d sess)) 30 (now e)"
  by (simp add: touch_def is_stale_def)

text \<open>
  C6: for a request whose cookie resolves to a session of an existing user (sessions are
  only created for a user just looked up, and users are never deleted): when
  \<open>last_seen\<close> is older than the 30-minute grace, the read returns no user and deletes
  the session; when \<open>last_seen\<close> is within the grace, the read returns the user and
  deletes nothing: every session row stays, the cookie still resolves to the session, and
  the session is again within the grace, so each further read in time keeps it alive.
\<close>

theorem get_current_user_staleness:
  assumes "session_cookie req = Some token" and "token \<noteq> []"
    and "session_get_by_token e d token = Some sess"
    and "get_by_id d (s_user_id sess) = Some u"
  shows "(is_stale sess 30 (now e) \<longrightarrow>
            get_current_user e req (None, d) = ((g_none, invalidate d sess), None) \<and>
            sess \<notin> set (sessions (invalidate d sess))) \<and>
         (\<not> is_stale sess 30 (now e) \<longrightarrow>
            snd (get_current_user e req (None, d)) = Some u \<and>
            snd (fst (get_current_user e req (None, d))) = fst (touch e d sess) \<and>
            map s_id (sessions (snd (fst (get_current_user e req (None, d))))) = map s_id (sessions d) \<and>
            session_get_by_token e (snd (fst (get_current_user e req (None, d)))) token
              = Some (snd (touch e d sess)) \<and>
            \<not> is_stale (snd (touch e d sess)) 30 (now e))"
  using assms token_after_touch [OF assms(3)] fresh_after_touch [of sess e d]
  by (simp add: get_current_user_def g_none_def split_beta invalidate_removes touch_keeps_ids)

theorem get_current_user_staleness_witness:
  "session_cookie (cookie_request ''cookie-b'') = Some ''cookie-b'' \<and>
   session_get_by_token env0 (db_alice\<lparr>sessions := [fresh_session, stale_session]\<rparr>) ''cookie-b'' = Some stale_session \<and>
   get_by_id (db_alice\<lparr>sessions := [fresh_session, stale_session]\<rparr>) (s_user_id stale_session) = Some alice \<and>
   is_stale stale_session 30 (now env0) \<and>
   get_current_user env0 (cookie_request ''cookie-b'') (None, db_alice\<lparr>sessions := [fresh_session, stale_session]\<rparr>)
     = ((g_none, db_alice\<lparr>sessions := [fresh_session]\<rparr>), None) \<and>
   session_get_by_token env0 (db_alice\<lparr>sessions := [fresh_session, stale_session]\<rparr>) ''cookie-a'' = Some fresh_session \<and>
   get_by_id (db_alice\<lparr>sessions := [fresh_session, stale_session]\<rparr>) (s_user_id fresh_session) = Some alice \<and>
   \<not> is_stale fresh_session 30 (now env0) \<and>
   snd (get_current_user env0 (cookie_request ''cookie-a'') (None, db_alice\<lparr>sessions := [fresh_session, stale_session]\<rparr>))
     = Some alice \<and>
   map s_id (sessions (snd (fst (get_current_user env0 (cookie_request ''cookie-a'')
     (None, db_alice\<lparr>sessions := [fresh_session, stale_session]\<rparr>))))) = [1, 2] \<and>
   session_get_by_token env0 (snd (fst (get_current_user env0 (cookie_request ''cookie-a'')
     (None, db_alice\<lparr>sessions := [fresh_session, stale_session]\<rparr>)))) ''cookie-a''
     = Some (fresh_session\<lparr>last_seen := 1000\<rparr>)"
proof -
  let ?d = "db_alice\<lparr>sessions := [fresh_session, stale_session]\<rparr>"
  have c: "session_cookie (cookie_request ''cookie-b'') = Some ''cookie-b''"
          "session_cookie (cookie_request ''cookie-a'') = Some ''cookie-a''"
    by (simp_all add: cookie_request_def)
  have ne: "''cookie-b'' \<noteq> []" "''cookie-a'' \<noteq> []" by simp_all
  have b: "session_get_by_token env0 ?d ''cookie-b'' = Some stale_session"
    by (simp add: session_get_by_token_def env0_def fresh_session_def stale_session_def)
  have a: "session_get_by_token env0 ?d ''cookie-a'' = Some fresh_session"
    by (simp add: session_get_by_token_def env0_def fresh_session_def stale_session_def)
  have st: "is_stale stale_session 30 (now env0)" "\<not> is_stale fresh_session 30 (now env0)"
    by (simp_all add: is_stale_def stale_session_def fresh_session_def env0_def)
  have u: "get_by_id ?d (s_user_id fresh_session) = Some alice"
          "get_by_id ?d (s_user_id stale_session) = Some alice"
    by (simp_all add: get_by_id_def db_alice_def alice_def fresh_session_def stale_session_def)
  have inv: "invalidate ?d stale_session = db_alice\<lparr>sessions := [fresh_session]\<rparr>"
    by (simp add: invalidate_def stale_session_def fresh_session_def)
  have ids: "map s_id (sessions ?d) = [1, 2]"
    by (simp add: fresh_session_def stale_session_def)
  have tc: "snd (touch env0 ?d fresh_session) = fresh_session\<lparr>last_seen := 1000\<rparr>"
    by (simp add: touch_def env0_def fresh_session_def)
  have t1: "get_current_user env0 (cookie_request ''cookie-b'') (None, ?d)
              = ((g_none, invalidate ?d stale_session), None)"
    using get_current_user_staleness [OF c(1) ne(1) b u(2)] st(1) by blast
  have t2: "snd (get_current_user env0 (cookie_request ''cookie-a'') (None, ?d)) = Some alice \<and>
            map s_id (sessions (snd (fst (get_current_user env0 (cookie_request ''cookie-a'') (None, ?d)))))
              = map s_id (sessions ?d) \<and>
            session_get_by_token env0 (snd (fst (get_current_user env0 (cookie_request ''cookie-a'') (None, ?d))))
              ''cookie-a'' = Some (snd (touch env0 ?d fresh_session))"
    using get_current_user_staleness [OF c(2) ne(2) a u(1)] st(2) by blast
  show ?thesis
    using t1 t2 c(1) a b st u unfolding inv ids tc by blast
qed

section \<open>Completing a registration\<close>

lemma reg_found_hash:
  "reg_get_by_token e d token = Some reg \<Longrightarrow> pr_token_hash reg = hash_token e token"
  by (auto simp: reg_get_by_token_def find_Some_iff)

lemma reg_consumed_unreachable:
  assumes "reg_get_by_token e d token = Some reg" and "hash_token e' = hash_token e"
  shows "reg_get_by_token e' (reg_consume d reg) token = None"
  using reg_found_hash [OF assms(1)] assms(2)
  by (simp add: reg_get_by_token_def reg_consume_def find_None_iff)

text \<open>
  C9: a well-formed POST /register/verify whose token resolves to an expired pending
  registration deletes that registration and answers 400 "Verification token has
  expired"; the same request sent again no longer finds the token and answers 400
  "Invalid or expired verification token".
\<close>

theorem expired_registration_consumed:
  assumes "body req = Some data" and "data \<noteq> []"
    and "get_stripped data ''token'' [] = Inr token" and "token \<noteq> []"
    and "get_stripped data ''auth_type'' ''totp'' = Inr at" and "lower at = ''totp''"
    and "get_stripped data ''recovery_email'' [] = Inr em"
    and "get_stripped data ''recovery_phone'' [] = Inr ph"
    and "reg_get_by_token e d token = Some reg" and "reg_is_expired e reg"
    and "hash_token e' = hash_token e"
  shows "verify_registration e req d =
           (reg_consume d reg, error_response 400 ''Verification token has expired'') \<and>
         reg_get_by_token e' (reg_consume d reg) token = None \<and>
         verify_registration e' req (reg_consume d reg) =
           (reg_consume d reg, error_response 400 ''Invalid or expired verification token'')"
proof -
  have gone: "reg_get_by_token e' (reg_consume d reg) token = None"
    using assms(9,11) by (rule reg_consumed_unreachable)
  have first: "verify_registration e req d =
           (reg_consume d reg, error_response 400 ''Verification token has expired'')"
    using assms by (simp add: verify_registration_def Let_def)
  have second: "verify_registration e' req (reg_consume d reg) =
           (reg_consume d reg, error_response 400 ''Invalid or expired verification token'')"
    using assms(1-8) gone by (simp add: verify_registration_def Let_def)
  show ?thesis using first gone second by blast
qed

lemma user_save_new:
  assumes "user_save d u0 = Inr (d1, u)" and "u_id u0 = 0"
  shows "users d1 = users d @ [u] \<and> can_download u = can_download u0 \<and> is_admin u = is_admin u0"
  using assms by (auto simp: user_save_def Let_def split: if_splits)

lemma users_create_codes: "users (fst (create_codes_for_user e d uid)) = users d"
  by (simp add: create_codes_for_user_def Let_def)

lemma users_reg_consume: "users (reg_consume d r) = users d"
  by (simp add: reg_consume_def)

text \<open>
  C10: whenever POST /register/verify answers 200, exactly one user row has been added,
  and it has \<open>can_download\<close> set and \<open>is_admin\<close> clear, whatever the request body
  contained.
\<close>

theorem registered_user_flags:
  assumes "verify_registration e req d = (d', Response 200 b c)"
  shows "\<exists>u. users d' = users d @ [u] \<and> can_download u \<and> \<not> is_admin u"
  using assms
  by (auto simp: verify_registration_def Let_def split_beta error_response_def jsonify_def
      users_create_codes users_reg_consume
      split: option.splits sum.splits if_splits dest!: user_save_new)

lemma strip_examples [simp]:
  "strip ''reg-0'' = ''reg-0''" "strip ''reg-1'' = ''reg-1''" "strip ''TOTP'' = ''TOTP''"
  "strip ''totp'' = ''totp''" "strip [] = []"
  by (simp_all add: strip_def isspace_def)

lemma lower_TOTP [simp]: "lower ''TOTP'' = ''totp''"
  by code_simp

theorem expired_registration_consumed_witness:
  "reg_get_by_token env0 db_pending ''reg-0'' = Some pending_old \<and>
   reg_is_expired env0 pending_old \<and>
   verify_registration env0 (verify_request ''reg-0'') db_pending =
     (db_pending\<lparr>pending_registrations := [pending_new]\<rparr>,
      error_response 400 ''Verification token has expired'') \<and>
   verify_registration (env0\<lparr>now := 1100\<rparr>) (verify_request ''reg-0'')
       (db_pending\<lparr>pending_registrations := [pending_new]\<rparr>) =
     (db_pending\<lparr>pending_registrations := [pending_new]\<rparr>,
      error_response 400 ''Invalid or expired verification token'')"
proof -
  let ?data = "[(''token'', JStr ''reg-0''), (''auth_type'', JStr ''TOTP''),
                (''is_admin'', JBool True), (''can_download'', JBool False)]"
  have b: "body (verify_request ''reg-0'') = Some ?data" "?data \<noteq> []"
    by (simp_all add: verify_request_def json_request_def)
  have f: "get_stripped ?data ''token'' [] = Inr ''reg-0''"
          "get_stripped ?data ''auth_type'' ''totp'' = Inr ''TOTP''"
          "get_stripped ?data ''recovery_email'' [] = Inr []"
          "get_stripped ?data ''recovery_phone'' [] = Inr []"
    by (simp_all add: get_stripped_def dict_get_def)
  have r: "reg_get_by_token env0 db_pending ''reg-0'' = Some pending_old"
    by (simp add: reg_get_by_token_def db_pending_def env0_def pending_old_def)
  have x: "reg_is_expired env0 pending_old"
    by (simp add: reg_is_expired_def env0_def pending_old_def)
  have h: "hash_token (env0\<lparr>now := 1100\<rparr>) = hash_token env0" by simp
  have c: "reg_consume db_pending pending_old = db_pending\<lparr>pending_registrations := [pending_new]\<rparr>"
    by (simp add: reg_consume_def db_pending_def pending_old_def pending_new_def)
  show ?thesis
    using expired_registration_consumed [OF b f(1) _ f(2) lower_TOTP f(3) f(4) r x h] r x
    unfolding c by simp
qed

lemma verify_bobby:
  "snd (verify_registration env0 (verify_request ''reg-1'') db_pending) =
     jsonify 200
       [(''success'', JBool True), (''username'', JStr ''bobby''), (''user_id'', JInt 2),
        (''totp_secret'', JStr ''ONSWG4TFOQWW4ZLX''),
        (''totp_uri'', JStr ''otpauth://totp/Library:bobby''),
        (''backup_codes'', JList [JStr ''AAAA-0000-0000-0001'', JStr ''AAAA-0000-0000-0002'']),
        (''recovery_enabled'', JBool False),
        (''message'', JStr (''Account created. Scan the QR code or enter '' @
                           ''the secret in your authenticator app.'')),
        (''warning'', JStr warning_codes_only)]"
  by (simp add: verify_registration_def verify_request_def json_request_def get_stripped_def dict_get_def
      or_none_def reg_get_by_token_def db_pending_def env0_def pending_old_def pending_new_def
      reg_is_expired_def user_save_def has_contact_def db_alice_def empty_db_def alice_def
      fresh_id_def create_codes_for_user_def reg_consume_def Let_def)

theorem registered_user_flags_witness:
  "snd (verify_registration env0 (verify_request ''reg-1'') db_pending) \<noteq>
     error_response 400 ''Invalid or expired verification token'' \<and>
   (\<exists>u. users (fst (verify_registration env0 (verify_request ''reg-1'') db_pending))
          = users db_pending @ [u] \<and> can_download u \<and> \<not> is_admin u)"
proof -
  have "verify_registration env0 (verify_request ''reg-1'') db_pending =
          (fst (verify_registration env0 (verify_request ''reg-1'') db_pending),
           Response 200 (JObj [(''success'', JBool True), (''username'', JStr ''bobby''), (''user_id'', JInt 2),
        (''totp_secret'', JStr ''ONSWG4TFOQWW4ZLX''),
        (''totp_uri'', JStr ''otpauth://totp/Library:bobby''),
        (''backup_codes'', JList [JStr ''AAAA-0000-0000-0001'', JStr ''AAAA-0000-0000-0002'']),
        (''recovery_enabled'', JBool False),
        (''message'', JStr (''Account created. Scan the QR code or enter '' @
                           ''the secret in your authenticator app.'')),
        (''warning'', JStr warning_codes_only)]) NoCookie)"
    using verify_bobby unfolding jsonify_def by (metis prod.collapse)
  from registered_user_flags [OF this] verify_bobby show ?thesis
    by (simp add: jsonify_def error_response_def)
qed

section \<open>Requesting a magic link\<close>

text \<open>
  C5: for a request that names a user, POST /magic-link answers with the generic success
  message in every case. When the named user exists with \<open>recovery_enabled\<close> and a
  non-empty recovery email, the user's earlier recoveries are replaced by one new
  pending recovery expiring 15 minutes from now, and a failed send only adds a log
  entry; in every other case the store is left as it was and nothing is logged.
\<close>

theorem magic_link_creation:
  assumes "body req = Some data" and "data \<noteq> []"
    and "get_stripped data ''username'' [] = Inr uname" and "uname \<noteq> []"
  shows "fst (snd (request_magic_link e req d)) = generic_success \<and>
         (has_recovery_email d uname \<longrightarrow>
            (\<exists>u a. get_by_username d uname = Some u \<and> recovery_email u = Some a \<and>
               pending_recoveries (fst (request_magic_link e req d)) =
                 filter (\<lambda>r. rc_user_id r \<noteq> u_id u) (pending_recoveries d) @ [new_recovery e (u_id u)] \<and>
               snd (snd (request_magic_link e req d)) =
                 (if send_email e a (username u) (''/verify.html?token='' @ generate_token e) 15
                  then [] else [MagicLinkSendFailed (u_id u)]))) \<and>
         (\<not> has_recovery_email d uname \<longrightarrow>
            request_magic_link e req d = (d, generic_success, []))"
  using assms
  by (auto simp: request_magic_link_def has_recovery_email_def new_recovery_def Let_def
      recovery_create_def recovery_delete_for_user_def split: option.splits)

lemma strip_names [simp]: "strip ''dave5'' = ''dave5''" "strip ''nobody'' = ''nobody''"
  by (simp_all add: strip_def isspace_def)

lemma magic_request_fields:
  "body (magic_request n) = Some [(''username'', JStr n)]"
  "get_stripped [(''username'', JStr n)] ''username'' [] = Inr (strip n)"
  by (simp_all add: magic_request_def json_request_def get_stripped_def dict_get_def)

theorem magic_link_creation_witness:
  "has_recovery_email db_two ''alice'' \<and>
   \<not> has_recovery_email db_two ''dave5'' \<and>
   \<not> has_recovery_email db_two ''nobody'' \<and>
   fst (snd (request_magic_link env_nomail (magic_request ''alice'') db_two)) = generic_success \<and>
   pending_recoveries (fst (request_magic_link env_nomail (magic_request ''alice'') db_two))
     = [new_recovery env_nomail 1] \<and>
   snd (snd (request_magic_link env_nomail (magic_request ''alice'') db_two)) = [MagicLinkSendFailed 1] \<and>
   request_magic_link env_nomail (magic_request ''dave5'') db_two = (db_two, generic_success, []) \<and>
   request_magic_link env_nomail (magic_request ''nobody'') db_two = (db_two, generic_success, [])"
proof -
  have ne: "[(''username'', JStr n)] \<noteq> []" for n by simp
  have u: "get_by_username db_two ''alice'' = Some alice"
          "get_by_username db_two ''dave5'' = Some dave"
          "get_by_username db_two ''nobody'' = None"
    by (simp_all add: get_by_username_def db_two_def alice_def dave_def)
  have h: "has_recovery_email db_two ''alice''" "\<not> has_recovery_email db_two ''dave5''"
          "\<not> has_recovery_email db_two ''nobody''"
    by (simp_all add: has_recovery_email_def u) (simp_all add: alice_def dave_def)
  have p: "pending_recoveries db_two = []" "u_id alice = 1"
          "recovery_email alice = Some ''alice@example.com''"
    by (simp_all add: db_two_def db_alice_def empty_db_def alice_def)
  have m: "\<not> send_email env_nomail a n l k" for a n l k
    by (simp add: env_nomail_def)
  have a: "fst (snd (request_magic_link env_nomail (magic_request ''alice'') db_two)) = generic_success \<and>
           pending_recoveries (fst (request_magic_link env_nomail (magic_request ''alice'') db_two))
             = [new_recovery env_nomail 1] \<and>
           snd (snd (request_magic_link env_nomail (magic_request ''alice'') db_two)) = [MagicLinkSendFailed 1]"
    using magic_link_creation [OF magic_request_fields(1) ne magic_request_fields(2),
        of "''alice''" env_nomail db_two] h(1) u(1) p m
    by auto
  have d: "request_magic_link env_nomail (magic_request ''dave5'') db_two = (db_two, generic_success, [])"
    using magic_link_creation [OF magic_request_fields(1) ne magic_request_fields(2),
        of "''dave5''" env_nomail db_two] h(2) by simp
  have n: "request_magic_link env_nomail (magic_request ''nobody'') db_two = (db_two, generic_success, [])"
    using magic_link_creation [OF magic_request_fields(1) ne magic_request_fields(2),
        of "''nobody''" env_nomail db_two] h(3) by simp
  show ?thesis using h a d n by blast
qed

section \<open>Enumeration resistance\<close>

text \<open>
  C4, as stated, fails: with a code that verifies, POST /login answers 200 with the
  user's data when the user exists and 401 "Invalid credentials" when the user is absent.
\<close>

theorem login_body_counterexample:
  "get_by_username db_alice (request_field login_request ''username'') = Some alice \<and>
   get_by_username empty_db (request_field login_request ''username'') = None \<and>
   response_body (snd (login env0 login_request db_alice)) =
     Some (JObj [(''success'', JBool True), (''user'', user_json (alice\<lparr>last_login := Some 1000\<rparr>))]) \<and>
   response_body (snd (login env0 login_request empty_db)) =
     Some (JObj [(''error'', JStr ''Invalid credentials'')]) \<and>
   response_body (snd (login env0 login_request db_alice)) \<noteq>
     response_body (snd (login env0 login_request empty_db))"
proof -
  have f: "request_field login_request ''username'' = ''alice''"
    by (simp add: request_field_def login_request_def json_request_def get_stripped_def dict_get_def)
  have a: "get_by_username db_alice ''alice'' = Some alice"
    by (simp add: get_by_username_def db_alice_def alice_def)
  have n: "get_by_username empty_db ''alice'' = None"
    by (simp add: get_by_username_def empty_db_def)
  have e: "snd (login env0 login_request empty_db) = error_response 401 ''Invalid credentials''"
    by (simp add: login_def login_request_def json_request_def get_stripped_def dict_get_def n)
  show ?thesis
    by (simp add: f a n e login_alice response_body_def error_response_def jsonify_def)
qed

lemma login_absent:
  assumes "get_by_username d' (request_field req ''username'') = None"
    and "\<And>u. get_by_username d (request_field req ''username'') = Some u \<Longrightarrow>
           auth_type u = TOTP \<and> \<not> verify_totp e (auth_credential u) (request_field req ''code'')"
  shows "snd (login e req d) = snd (login e' req d')"
  using assms
  by (auto simp: login_def request_field_def split: option.splits sum.splits)

lemma recover_absent:
  assumes "get_by_username d' (request_field req ''username'') = None"
    and "\<And>u. get_by_username d (request_field req ''username'') = Some u \<Longrightarrow>
           \<not> snd (verify_and_consume e d (u_id u) (request_field req ''backup_code''))"
  shows "snd (recover_with_backup_code failing e req d) = snd (recover_with_backup_code failing' e' req d')"
  using assms
  by (auto simp: recover_with_backup_code_def request_field_def split_beta
      split: option.splits sum.splits)

lemma magic_link_response:
  "fst (snd (request_magic_link e req d)) = fst (snd (request_magic_link e' req d'))"
  by (simp add: request_magic_link_def Let_def split_beta split: option.splits sum.splits)

text \<open>
  C4, amended: for every request, the answer of POST /login is the same in a store where
  the named user is absent and in a store where the user exists as a TOTP user but the
  code does not verify; the answer of POST /recover/backup-code is the same where the
  user is absent and where the user exists but the backup code does not verify; the
  answer of POST /magic-link does not depend on the store at all.
\<close>

theorem enumeration_resistance:
  assumes "get_by_username d' (request_field req ''username'') = None"
  shows "((\<forall>u. get_by_username d (request_field req ''username'') = Some u \<longrightarrow>
             auth_type u = TOTP \<and> \<not> verify_totp e (auth_credential u) (request_field req ''code''))
          \<longrightarrow> snd (login e req d) = snd (login e' req d')) \<and>
         ((\<forall>u. get_by_username d (request_field req ''username'') = Some u \<longrightarrow>
             \<not> snd (verify_and_consume e d (u_id u) (request_field req ''backup_code'')))
          \<longrightarrow> snd (recover_with_backup_code failing e req d) =
                snd (recover_with_backup_code failing' e' req d')) \<and>
         fst (snd (request_magic_link e req d)) = fst (snd (request_magic_link e' req d'))"
  using login_absent [OF assms, of d e e'] recover_absent [OF assms, of d e failing failing' e']
    magic_link_response [of e req d e' d']
  by blast

lemma strip_more [simp]:
  "strip ''000000'' = ''000000''" "strip ''XXXX-XXXX-XXXX-XXXX'' = ''XXXX-XXXX-XXXX-XXXX''"
  by (simp_all add: strip_def isspace_def)

lemma normalize_bad [simp]: "normalize_code ''XXXX-XXXX-XXXX-XXXX'' = ''XXXXXXXXXXXXXXXX''"
  by code_simp

theorem enumeration_resistance_witness:
  "get_by_username empty_db ''alice'' = None \<and>
   get_by_username db_alice ''alice'' = Some alice \<and>
   snd (login env0 bad_login_request db_alice) = error_response 401 ''Invalid credentials'' \<and>
   snd (login env0 bad_login_request db_alice) = snd (login env0 bad_login_request empty_db) \<and>
   snd (recover_with_backup_code {} env0 bad_recover_request db_alice) =
     error_response 401 ''Invalid username or backup code'' \<and>
   snd (recover_with_backup_code {} env0 bad_recover_request db_alice) =
     snd (recover_with_backup_code {} env0 bad_recover_request empty_db) \<and>
   fst (snd (request_magic_link env0 (magic_request ''alice'') db_alice)) =
     fst (snd (request_magic_link env0 (magic_request ''alice'') empty_db))"
proof -
  have n: "get_by_username empty_db ''alice'' = None"
    by (simp add: get_by_username_def empty_db_def)
  have a: "get_by_username db_alice ''alice'' = Some alice"
    by (simp add: get_by_username_def db_alice_def alice_def)
  have f1: "request_field bad_login_request ''username'' = ''alice''"
           "request_field bad_login_request ''code'' = ''000000''"
    by (simp_all add: request_field_def bad_login_request_def json_request_def get_stripped_def dict_get_def)
  have f2: "request_field bad_recover_request ''username'' = ''alice''"
           "request_field bad_recover_request ''backup_code'' = ''XXXX-XXXX-XXXX-XXXX''"
    by (simp_all add: request_field_def bad_recover_request_def json_request_def get_stripped_def dict_get_def)
  have f3: "request_field (magic_request ''alice'') ''username'' = ''alice''"
    by (simp add: request_field_def magic_request_def json_request_def get_stripped_def dict_get_def)
  have v: "auth_type alice = TOTP" "\<not> verify_totp env0 (auth_credential alice) ''000000''"
    by (simp_all add: alice_def env0_def)
  have c: "\<not> snd (verify_and_consume env0 db_alice (u_id alice) ''XXXX-XXXX-XXXX-XXXX'')"
    by (simp add: verify_and_consume_def code_matches_def db_alice_def alice_code_def env0_def
        alice_def)
  have l: "snd (login env0 bad_login_request empty_db) = error_response 401 ''Invalid credentials''"
    by (simp add: login_def bad_login_request_def json_request_def get_stripped_def dict_get_def n)
  have r: "snd (recover_with_backup_code {} env0 bad_recover_request empty_db) =
             error_response 401 ''Invalid username or backup code''"
    by (simp add: recover_with_backup_code_def bad_recover_request_def json_request_def
        get_stripped_def dict_get_def n)
  have t1: "snd (login env0 bad_login_request db_alice) = snd (login env0 bad_login_request empty_db)"
    using enumeration_resistance [of empty_db bad_login_request db_alice env0 env0] n a v
    by (simp add: f1)
  have t2: "snd (recover_with_backup_code {} env0 bad_recover_request db_alice) =
            snd (recover_with_backup_code {} env0 bad_recover_request empty_db)"
    using enumeration_resistance [of empty_db bad_recover_request db_alice env0 env0 "{}" "{}"] n a c
    by (simp add: f2)
  have t3: "fst (snd (request_magic_link env0 (magic_request ''alice'') db_alice)) =
            fst (snd (request_magic_link env0 (magic_request ''alice'') empty_db))"
    using enumeration_resistance [of empty_db "magic_request ''alice''" db_alice env0 env0] n
    by (simp add: f3)
  show ?thesis using n a l r t1 t2 t3 by simp
qed

section \<open>Backup-code recovery\<close>

lemma users_verify_and_consume: "users (fst (verify_and_consume e d uid c)) = users d"
  by (simp add: verify_and_consume_def split: option.splits)

lemma find_replace_by_id:
  assumes "find (\<lambda>r. username r = n) xs = Some u" and "username v = n" and "u_id v = u_id u"
  shows "find (\<lambda>r. username r = n) (map (\<lambda>r. if u_id r = u_id v then v else r) xs) = Some v"
  using assms by (induction xs) (auto split: if_splits)

lemma user_save_existing:
  assumes "user_save d v0 = Inr (d2, u2)" and "get_by_username d (username v0) = Some u"
    and "u_id v0 = u_id u"
  shows "u_id u2 = u_id u \<and> username u2 = username v0 \<and> get_by_username d2 (username v0) = Some u2 \<and>
         auth_credential u2 = auth_credential v0 \<and> auth_type u2 = auth_type v0 \<and>
         backup_codes d2 = backup_codes d \<and> sessions d2 = sessions d \<and>
         users d2 = map (\<lambda>r. if u_id r = u_id u then u2 else r) (users d)"
proof (cases "u_id v0 = 0")
  case True
  have "u \<in> set (users d)" "username u = username v0"
    using assms(2) by (auto simp: get_by_username_def find_Some_iff)
  then have "list_ex (\<lambda>r. username r = username v0) (users d)"
    by (auto simp: list_ex_iff)
  then show ?thesis using assms(1) True by (simp add: user_save_def Let_def)
next
  case False
  let ?v = "v0\<lparr>recovery_enabled := has_contact v0\<rparr>"
  have s: "d2 = d\<lparr>users := map (\<lambda>r. if u_id r = u_id ?v then ?v else r) (users d)\<rparr>" "u2 = ?v"
    using assms(1) False by (auto simp: user_save_def Let_def split: if_splits)
  have "find (\<lambda>r. username r = username v0) (map (\<lambda>r. if u_id r = u_id ?v then ?v else r) (users d)) = Some ?v"
    using assms(2,3) by (intro find_replace_by_id) (simp_all add: get_by_username_def)
  then show ?thesis using s assms(3) by (simp add: get_by_username_def)
qed

lemma rotate_success:
  assumes "recover_rotate failing e d1 u = (d', Response 200 b c)"
  shows "\<exists>d2 u2. user_save d1 (u\<lparr>auth_credential := fst (setup_totp e (username u)), auth_type := TOTP\<rparr>)
                   = Inr (d2, u2) \<and>
                 d' = invalidate_user_sessions (fst (create_codes_for_user e d2 (u_id u2))) (u_id u2)"
  using assms
  by (auto simp: recover_rotate_def Let_def split_beta jsonify_def split: sum.splits if_splits)

text \<open>A 200 answer means that the named user exists and that the code was accepted for them.\<close>

lemma recover_success:
  assumes "recover_with_backup_code failing e req d = (d', Response 200 b c)"
  shows "\<exists>u. get_by_username d (request_field req ''username'') = Some u \<and>
             snd (verify_and_consume e d (u_id u) (request_field req ''backup_code'')) \<and>
             recover_rotate failing e (fst (verify_and_consume e d (u_id u) (request_field req ''backup_code''))) u
               = (d', Response 200 b c)"
  using assms
  by (auto simp: recover_with_backup_code_def request_field_def split_beta error_response_def
      jsonify_def split: option.splits sum.splits if_splits)

lemma no_match_after_create:
  assumes "h \<notin> set (map (\<lambda>c. hash_backup_code e (normalize_code c)) (generate_backup_codes e))"
  shows "find (\<lambda>r. bc_user_id r = uid \<and> bc_used_at r = None \<and> bc_code_hash r = h)
           (backup_codes (fst (create_codes_for_user e d uid))) = None"
proof -
  let ?kept = "filter (\<lambda>r. \<not> (bc_user_id r = uid \<and> bc_used_at r = None)) (backup_codes d)"
  let ?mk = "\<lambda>(i, c). \<lparr> bc_id = i, bc_user_id = uid,
                bc_code_hash = hash_backup_code e (normalize_code c), bc_used_at = None \<rparr>"
  have new: "bc_code_hash r \<noteq> h"
    if "r \<in> set (map ?mk (zip [n ..< n + length (generate_backup_codes e)] (generate_backup_codes e)))"
    for r n
  proof -
    from that obtain i c where ic: "(i, c) \<in> set (zip [n ..< n + length (generate_backup_codes e)] (generate_backup_codes e))"
      and r: "r = ?mk (i, c)" by auto
    have "c \<in> set (generate_backup_codes e)" using ic by (rule set_zip_rightD)
    then show ?thesis using assms r by auto
  qed
  have bc: "backup_codes (fst (create_codes_for_user e d uid)) =
        ?kept @ map ?mk (zip [fresh_id (map bc_id ?kept) ..<
                              fresh_id (map bc_id ?kept) + length (generate_backup_codes e)]
                             (generate_backup_codes e))"
    by (simp add: create_codes_for_user_def Let_def)
  have "\<not> (bc_user_id r = uid \<and> bc_used_at r = None \<and> bc_code_hash r = h)"
    if "r \<in> set (backup_codes (fst (create_codes_for_user e d uid)))" for r
  proof -
    from that [unfolded bc] have "r \<in> set ?kept \<or>
        r \<in> set (map ?mk (zip [fresh_id (map bc_id ?kept) ..<
                              fresh_id (map bc_id ?kept) + length (generate_backup_codes e)]
                             (generate_backup_codes e)))"
      by (simp only: set_append Un_iff)
    then show ?thesis
    proof
      assume "r \<in> set ?kept"
      then show ?thesis by simp
    next
      assume "r \<in> set (map ?mk (zip [fresh_id (map bc_id ?kept) ..<
                              fresh_id (map bc_id ?kept) + length (generate_backup_codes e)]
                             (generate_backup_codes e)))"
      then show ?thesis using new by blast
    qed
  qed
  then show ?thesis
    unfolding find_None_iff by blast
qed

lemma users_create_codes_kept: "users (fst (create_codes_for_user e d uid)) = users d"
  by (simp add: create_codes_for_user_def Let_def)

lemma normalize_examples [simp]:
  "normalize_code ''zzzz-1111-2222-3333'' = ''ZZZZ111122223333''"
  "normalize_code ''AAAA-0000-0000-0001'' = ''AAAA000000000001''"
  "normalize_code ''AAAA-0000-0000-0002'' = ''AAAA000000000002''"
  by code_simp+

lemma strip_recover [simp]: "strip ''zzzz-1111-2222-3333'' = ''zzzz-1111-2222-3333''"
  by (simp add: strip_def isspace_def)

lemma recover_alice:
  "recover_with_backup_code {} env0 recover_request db_alice =
     (db_recovered,
      jsonify 200
        [(''success'', JBool True), (''username'', JStr ''alice''),
         (''totp_secret'', JStr ''ONSWG4TFOQWW4ZLX''),
         (''totp_uri'', JStr ''otpauth://totp/Library:alice''),
         (''backup_codes'', JList [JStr ''AAAA-0000-0000-0001'', JStr ''AAAA-0000-0000-0002'']),
         (''remaining_old_codes'', JInt 0),
         (''message'', JStr (''Account recovered. Set up your new '' @
                            ''authenticator and save your new backup codes.'')),
         (''warning'', JStr warning_recovered_contact)])"
  by (simp add: recover_with_backup_code_def recover_request_def json_request_def get_stripped_def dict_get_def
      get_by_username_def db_alice_def empty_db_def alice_def alice_code_def env0_def
      verify_and_consume_def code_matches_def recover_rotate_def get_remaining_count_def
      user_save_def has_contact_def create_codes_for_user_def fresh_id_def
      invalidate_user_sessions_def db_recovered_def Let_def)

section \<open>Recovery is a sequence of separate writes\<close>

text \<open>
  C1, as stated, fails: when the write of the new credential fails after the backup code
  has been consumed, the request ends in an error and the code stays marked used; the
  user is left with no unused code although nothing else was changed.
\<close>

theorem recovery_not_atomic_counterexample:
  "snd (verify_and_consume env0 db_alice 1 ''zzzz-1111-2222-3333'') \<and>
   recover_with_backup_code {SaveUser} env0 recover_request db_alice =
     (db_alice\<lparr>backup_codes := [alice_code\<lparr>bc_used_at := Some 1000\<rparr>]\<rparr>, Raised StoreError) \<and>
   unused_codes db_alice 1 = [alice_code] \<and>
   unused_codes (fst (recover_with_backup_code {SaveUser} env0 recover_request db_alice)) 1 = []"
  by (simp add: recover_with_backup_code_def recover_request_def json_request_def get_stripped_def dict_get_def
      get_by_username_def db_alice_def empty_db_def alice_def alice_code_def env0_def
      verify_and_consume_def code_matches_def recover_rotate_def get_remaining_count_def
      unused_codes_def Let_def)

lemma consumed_row_marked:
  assumes "find (code_matches e uid c) (backup_codes d) = Some row"
  shows "row\<lparr>bc_used_at := Some (now e)\<rparr> \<in> set (backup_codes (fst (verify_and_consume e d uid c)))"
proof -
  have "row \<in> set (backup_codes d)" "bc_used_at row = None"
    using assms by (auto simp: find_Some_iff code_matches_def)
  have "f row \<in> set (map f (backup_codes d))" for f :: "backup_code \<Rightarrow> backup_code"
    using \<open>row \<in> set (backup_codes d)\<close> by simp
  from this [of "\<lambda>r. if bc_id r = bc_id row \<and> bc_used_at r = None
                  then r\<lparr>bc_used_at := Some (now e)\<rparr> else r"]
  show ?thesis using assms \<open>bc_used_at row = None\<close>
    by (simp add: verify_and_consume_def)
qed

lemma backup_codes_user_save:
  "user_save d v = Inr (d2, u2) \<Longrightarrow> backup_codes d2 = backup_codes d"
  by (auto simp: user_save_def Let_def split: if_splits)

lemma used_row_kept:
  assumes "x \<in> set (backup_codes d)" and "bc_used_at x \<noteq> None"
  shows "x \<in> set (backup_codes (fst (create_codes_for_user e d uid)))"
  using assms by (simp add: create_codes_for_user_def Let_def)

lemma used_row_survives_rotate:
  assumes "x \<in> set (backup_codes d1)" and "bc_used_at x \<noteq> None"
  shows "x \<in> set (backup_codes (fst (recover_rotate failing e d1 u)))"
proof (cases "user_save d1 (u\<lparr>auth_credential := fst (setup_totp e (username u)), auth_type := TOTP\<rparr>)")
  case (Inl err)
  then show ?thesis using assms by (simp add: recover_rotate_def Let_def split_beta)
next
  case (Inr p)
  obtain d2 u2 where p: "p = (d2, u2)" by (cases p)
  have "x \<in> set (backup_codes d2)"
    using backup_codes_user_save [OF Inr [unfolded p]] assms(1) by simp
  then have "x \<in> set (backup_codes (fst (create_codes_for_user e d2 (u_id u2))))"
    using assms(2) by (rule used_row_kept)
  then show ?thesis using assms Inr p \<open>x \<in> set (backup_codes d2)\<close>
    by (simp add: recover_rotate_def Let_def split_beta invalidate_user_sessions_def)
qed

lemma recover_reaches_rotate:
  assumes "request_field req ''username'' \<noteq> []" and "request_field req ''backup_code'' \<noteq> []"
    and "get_by_username d (request_field req ''username'') = Some u"
    and "find (code_matches e (u_id u) (request_field req ''backup_code'')) (backup_codes d) = Some row"
  shows "recover_with_backup_code failing e req d =
           recover_rotate failing e (fst (verify_and_consume e d (u_id u) (request_field req ''backup_code''))) u"
proof -
  obtain data where b: "body req = Some data"
    using assms(1) by (cases "body req") (simp_all add: request_field_def)
  obtain n where n: "get_stripped data ''username'' [] = Inr n" "request_field req ''username'' = n"
    using assms(1) b by (cases "get_stripped data ''username'' []") (simp_all add: request_field_def)
  obtain c where c: "get_stripped data ''backup_code'' [] = Inr c" "request_field req ''backup_code'' = c"
    using assms(2) b by (cases "get_stripped data ''backup_code'' []") (simp_all add: request_field_def)
  have ne: "data \<noteq> []"
    using n assms(1) by (auto simp: get_stripped_def dict_get_def strip_def)
  show ?thesis
    using assms b n c ne
    by (simp add: recover_with_backup_code_def verify_and_consume_def)
qed

lemma new_rows_hashes:
  "map bc_code_hash (map (\<lambda>(i, c). \<lparr> bc_id = i, bc_user_id = uid, bc_code_hash = f c, bc_used_at = None \<rparr>)
       (zip [n ..< n + length cs] cs)) = map f cs"
proof -
  have "map (\<lambda>(i, c). f c) (zip xs cs) = map f cs" if "length xs = length cs" for xs :: "nat list"
    using that by (induction xs cs rule: list_induct2) simp_all
  then show ?thesis by (simp add: split_def comp_def)
qed

lemma unused_after_create:
  "map bc_code_hash (unused_codes (fst (create_codes_for_user e d uid)) uid) =
     map (\<lambda>c. hash_backup_code e (normalize_code c)) (generate_backup_codes e)"
proof -
  let ?P = "\<lambda>r. bc_user_id r = uid \<and> bc_used_at r = None"
  let ?rows = "map (\<lambda>(i, c). \<lparr> bc_id = i, bc_user_id = uid,
                 bc_code_hash = hash_backup_code e (normalize_code c), bc_used_at = None \<rparr>)"
  have all: "filter ?P (?rows zs) = ?rows zs" for zs :: "(nat \<times> string) list"
    by (induction zs) auto
  show ?thesis
    using new_rows_hashes [of uid "\<lambda>c. hash_backup_code e (normalize_code c)"]
    by (auto simp: unused_codes_def create_codes_for_user_def Let_def all filter_empty_conv)
qed

lemma user_save_error: "user_save d v = Inl x \<Longrightarrow> x = IntegrityError"
  by (auto simp: user_save_def Let_def split: if_splits)

lemma rotate_total:
  "(\<exists>b c. snd (recover_rotate {} e d1 u) = Response 200 b c) \<or>
   snd (recover_rotate {} e d1 u) = Raised IntegrityError"
  by (cases "user_save d1 (u\<lparr>auth_credential := fst (setup_totp e (username u)), auth_type := TOTP\<rparr>)")
     (auto simp: recover_rotate_def Let_def split_beta jsonify_def dest: user_save_error)

lemma rotate_effects:
  assumes rot: "recover_rotate failing e d1 u = (d', Response 200 b c)"
    and u: "get_by_username d1 (username u) = Some u"
  shows "(\<exists>u2. get_by_username d' (username u) = Some u2 \<and> u_id u2 = u_id u \<and>
               auth_credential u2 = fst (setup_totp e (username u)) \<and> auth_type u2 = TOTP) \<and>
         map bc_code_hash (unused_codes d' (u_id u)) =
           map (\<lambda>c. hash_backup_code e (normalize_code c)) (generate_backup_codes e) \<and>
         sessions_of d' (u_id u) = []"
proof -
  let ?v = "u\<lparr>auth_credential := fst (setup_totp e (username u)), auth_type := TOTP\<rparr>"
  from rotate_success [OF rot] obtain d2 u2 where
    sv: "user_save d1 ?v = Inr (d2, u2)" and
    d': "d' = invalidate_user_sessions (fst (create_codes_for_user e d2 (u_id u2))) (u_id u2)"
    by blast
  have u': "get_by_username d1 (username ?v) = Some u" using u by simp
  have idv: "u_id ?v = u_id u" by simp
  note ex = user_save_existing [OF sv u' idv]
  have id: "u_id u2 = u_id u" using ex by blast
  have cr: "auth_credential u2 = fst (setup_totp e (username u))" "auth_type u2 = TOTP"
    using ex by simp_all
  have bk: "backup_codes d2 = backup_codes d1" using ex by blast
  have "get_by_username d2 (username ?v) = Some u2" using ex by blast
  then have g: "get_by_username d' (username u) = Some u2"
    by (simp add: d' get_by_username_def invalidate_user_sessions_def users_create_codes_kept)
  have c: "map bc_code_hash (unused_codes d' (u_id u)) =
           map (\<lambda>c. hash_backup_code e (normalize_code c)) (generate_backup_codes e)"
    using unused_after_create [of e d2 "u_id u"]
    by (simp add: d' id unused_codes_def invalidate_user_sessions_def)
  have s: "sessions_of d' (u_id u) = []"
    by (simp add: d' id sessions_of_def invalidate_user_sessions_def filter_empty_conv)
  show ?thesis using g id cr c s by simp
qed

text \<open>
  C1, amended: for a POST /recover/backup-code request whose backup code is consumed,
  the consumed row stays marked used in the resulting store whatever happens afterwards
  (the steps are separate writes, not one transaction); whenever the request is answered
  200, the user's stored credential is the fresh secret with auth type TOTP, the user's
  unused backup codes are exactly the freshly generated ones, and the user has no
  session; and when no write fails the request is answered 200, unless the store refuses
  the user row.
\<close>

theorem recovery_steps:
  assumes "request_field req ''username'' \<noteq> []" and "request_field req ''backup_code'' \<noteq> []"
    and "get_by_username d (request_field req ''username'') = Some u"
    and "find (code_matches e (u_id u) (request_field req ''backup_code'')) (backup_codes d) = Some row"
  shows "row\<lparr>bc_used_at := Some (now e)\<rparr>
           \<in> set (backup_codes (fst (recover_with_backup_code failing e req d))) \<and>
         (\<forall>b c. snd (recover_with_backup_code failing e req d) = Response 200 b c \<longrightarrow>
            (\<exists>u2. get_by_username (fst (recover_with_backup_code failing e req d))
                     (request_field req ''username'') = Some u2 \<and> u_id u2 = u_id u \<and>
                  auth_credential u2 = fst (setup_totp e (username u)) \<and> auth_type u2 = TOTP) \<and>
            map bc_code_hash (unused_codes (fst (recover_with_backup_code failing e req d)) (u_id u)) =
              map (\<lambda>c. hash_backup_code e (normalize_code c)) (generate_backup_codes e) \<and>
            sessions_of (fst (recover_with_backup_code failing e req d)) (u_id u) = []) \<and>
         (failing = {} \<longrightarrow>
            (\<exists>b c. snd (recover_with_backup_code failing e req d) = Response 200 b c) \<or>
            snd (recover_with_backup_code failing e req d) = Raised IntegrityError)"
proof -
  let ?c = "request_field req ''backup_code''"
  let ?d1 = "fst (verify_and_consume e d (u_id u) ?c)"
  have red: "recover_with_backup_code f e req d = recover_rotate f e ?d1 u" for f
    using assms by (rule recover_reaches_rotate)
  have n: "username u = request_field req ''username''"
    using assms(3) by (auto simp: get_by_username_def find_Some_iff)
  have u1: "get_by_username ?d1 (username u) = Some u"
    using assms(3) n by (simp add: get_by_username_def users_verify_and_consume)
  have marked: "row\<lparr>bc_used_at := Some (now e)\<rparr> \<in> set (backup_codes ?d1)"
    using assms(4) by (rule consumed_row_marked)
  have A: "row\<lparr>bc_used_at := Some (now e)\<rparr> \<in> set (backup_codes (fst (recover_rotate failing e ?d1 u)))"
    using marked by (rule used_row_survives_rotate) simp
  have B: "(\<exists>u2. get_by_username (fst (recover_rotate failing e ?d1 u)) (username u) = Some u2 \<and>
                 u_id u2 = u_id u \<and>
                 auth_credential u2 = fst (setup_totp e (username u)) \<and> auth_type u2 = TOTP) \<and>
            map bc_code_hash (unused_codes (fst (recover_rotate failing e ?d1 u)) (u_id u)) =
              map (\<lambda>c. hash_backup_code e (normalize_code c)) (generate_backup_codes e) \<and>
            sessions_of (fst (recover_rotate failing e ?d1 u)) (u_id u) = []"
    if "snd (recover_rotate failing e ?d1 u) = Response 200 b c" for b c
  proof -
    have "recover_rotate failing e ?d1 u = (fst (recover_rotate failing e ?d1 u), Response 200 b c)"
      using that by (metis prod.collapse)
    from rotate_effects [OF this u1] show ?thesis .
  qed
  have C: "(\<exists>b c. snd (recover_rotate {} e ?d1 u) = Response 200 b c) \<or>
           snd (recover_rotate {} e ?d1 u) = Raised IntegrityError"
    by (rule rotate_total)
  show ?thesis
    unfolding red using A B C n by auto
qed

theorem recovery_steps_witness:
  "get_by_username db_alice (request_field recover_request ''username'') = Some alice \<and>
   find (code_matches env0 (u_id alice) (request_field recover_request ''backup_code''))
     (backup_codes db_alice) = Some alice_code \<and>
   alice_code\<lparr>bc_used_at := Some 1000\<rparr>
     \<in> set (backup_codes (fst (recover_with_backup_code {InvalidateSessions} env0 recover_request db_alice))) \<and>
   alice_code\<lparr>bc_used_at := Some 1000\<rparr>
     \<in> set (backup_codes (fst (recover_with_backup_code {} env0 recover_request db_alice))) \<and>
   get_by_username (fst (recover_with_backup_code {} env0 recover_request db_alice)) ''alice''
     = Some (alice\<lparr>auth_credential := ''secret-new''\<rparr>) \<and>
   map bc_code_hash (unused_codes (fst (recover_with_backup_code {} env0 recover_request db_alice)) 1)
     = [''b:AAAA000000000001'', ''b:AAAA000000000002''] \<and>
   sessions_of (fst (recover_with_backup_code {} env0 recover_request db_alice)) 1 = []"
proof -
  have f: "request_field recover_request ''username'' = ''alice''"
          "request_field recover_request ''backup_code'' = ''zzzz-1111-2222-3333''"
    by (simp_all add: request_field_def recover_request_def json_request_def get_stripped_def dict_get_def)
  have ne: "request_field recover_request ''username'' \<noteq> []"
           "request_field recover_request ''backup_code'' \<noteq> []"
    by (simp_all add: f)
  have a: "get_by_username db_alice (request_field recover_request ''username'') = Some alice"
    by (simp add: f get_by_username_def db_alice_def alice_def)
  have r: "find (code_matches env0 (u_id alice) (request_field recover_request ''backup_code''))
             (backup_codes db_alice) = Some alice_code"
    by (simp add: f code_matches_def db_alice_def alice_code_def alice_def) (simp add: env0_def)
  have t: "now env0 = 1000" "u_id alice = 1"
    "map (\<lambda>c. hash_backup_code env0 (normalize_code c)) (generate_backup_codes env0)
       = [''b:AAAA000000000001'', ''b:AAAA000000000002'']"
    by (simp_all add: env0_def alice_def)
  have ok: "snd (recover_with_backup_code {} env0 recover_request db_alice) =
     Response 200
        (JObj [(''success'', JBool True), (''username'', JStr ''alice''),
         (''totp_secret'', JStr ''ONSWG4TFOQWW4ZLX''),
         (''totp_uri'', JStr ''otpauth://totp/Library:alice''),
         (''backup_codes'', JList [JStr ''AAAA-0000-0000-0001'', JStr ''AAAA-0000-0000-0002'']),
         (''remaining_old_codes'', JInt 0),
         (''message'', JStr (''Account recovered. Set up your new '' @
                            ''authenticator and save your new backup codes.'')),
         (''warning'', JStr warning_recovered_contact)]) NoCookie"
    by (simp add: recover_alice jsonify_def)
  have g: "get_by_username (fst (recover_with_backup_code {} env0 recover_request db_alice)) ''alice''
     = Some (alice\<lparr>auth_credential := ''secret-new''\<rparr>)"
    by (simp add: recover_alice db_recovered_def get_by_username_def alice_def)
  show ?thesis
    using recovery_steps [OF ne a r, of "{InvalidateSessions}"] recovery_steps [OF ne a r, of "{}"]
      a r ok g
    unfolding t by simp
qed

section \<open>A backup code is accepted once\<close>

lemma same_hash_same_row:
  assumes "distinct (map f xs)" and "x \<in> set xs" and "y \<in> set xs" and "f x = f y"
  shows "x = y"
  using assms by (meson distinct_map inj_onD)

lemma issued_code_found:
  assumes "hash_backup_code e (normalize_code c) \<in> set (map bc_code_hash (unused_codes d uid))"
  shows "\<exists>row. find (code_matches e uid c) (backup_codes d) = Some row"
proof -
  from assms obtain r where "r \<in> set (backup_codes d)" "code_matches e uid c r"
    by (auto simp: unused_codes_def code_matches_def)
  then have "find (code_matches e uid c) (backup_codes d) \<noteq> None"
    unfolding find_None_iff by blast
  then show ?thesis by blast
qed

lemma no_match_after_consume:
  assumes found: "find (code_matches e uid c) (backup_codes d) = Some row"
    and dist: "distinct (map bc_code_hash (unused_codes d uid))"
    and same: "hash_backup_code e2 = hash_backup_code e"
  shows "find (code_matches e2 uid c) (backup_codes (fst (verify_and_consume e d uid c))) = None"
proof -
  let ?f = "\<lambda>r. if bc_id r = bc_id row \<and> bc_used_at r = None
                 then r\<lparr>bc_used_at := Some (now e)\<rparr> else r"
  have row: "row \<in> set (backup_codes d)" "code_matches e uid c row"
    using found by (auto simp: find_Some_iff)
  then have row_u: "row \<in> set (unused_codes d uid)"
    by (simp add: unused_codes_def code_matches_def)
  have bc: "backup_codes (fst (verify_and_consume e d uid c)) = map ?f (backup_codes d)"
    using found by (simp add: verify_and_consume_def)
  have "\<not> code_matches e2 uid c (?f r)" if r: "r \<in> set (backup_codes d)" for r
  proof
    assume m: "code_matches e2 uid c (?f r)"
    then have unmarked: "\<not> (bc_id r = bc_id row \<and> bc_used_at r = None)"
      by (auto simp: code_matches_def split: if_splits)
    with m have mr: "code_matches e uid c r"
      by (simp add: code_matches_def same)
    then have "r \<in> set (unused_codes d uid)"
      using r by (simp add: unused_codes_def code_matches_def)
    moreover have "bc_code_hash r = bc_code_hash row"
      using mr row(2) by (simp add: code_matches_def)
    ultimately have "r = row"
      using dist row_u by (intro same_hash_same_row [of bc_code_hash])
    with unmarked mr show False by (simp add: code_matches_def)
  qed
  then have "\<forall>x \<in> set (map ?f (backup_codes d)). \<not> code_matches e2 uid c x"
    unfolding set_map ball_simps by blast
  then show ?thesis
    unfolding bc find_None_iff by blast
qed

lemma recover_rejected:
  assumes "request_field req ''username'' \<noteq> []" and "request_field req ''backup_code'' \<noteq> []"
    and "get_by_username d' (request_field req ''username'') = Some u'"
    and "find (code_matches e2 (u_id u') (request_field req ''backup_code'')) (backup_codes d') = None"
  shows "recover_with_backup_code failing2 e2 req d' = (d', unauthorized)"
proof -
  obtain data where b: "body req = Some data"
    using assms(1) by (cases "body req") (simp_all add: request_field_def)
  obtain n where n: "get_stripped data ''username'' [] = Inr n" "request_field req ''username'' = n"
    using assms(1) b by (cases "get_stripped data ''username'' []") (simp_all add: request_field_def)
  obtain c where c: "get_stripped data ''backup_code'' [] = Inr c" "request_field req ''backup_code'' = c"
    using assms(2) b by (cases "get_stripped data ''backup_code'' []") (simp_all add: request_field_def)
  have ne: "data \<noteq> []"
    using n assms(1) by (auto simp: get_stripped_def dict_get_def strip_def)
  show ?thesis
    using assms b n c ne
    by (simp add: recover_with_backup_code_def verify_and_consume_def unauthorized_def)
qed

text \<open>
  Whichever write of the rotation fails, or none: the user is still found under the same
  name and id, and no unused row of theirs carries the hash of the consumed code.
\<close>

lemma rotate_keeps_rejecting:
  assumes u: "get_by_username d1 (username u) = Some u"
    and nm: "find (code_matches e2 (u_id u) c) (backup_codes d1) = None"
    and fresh: "hash_backup_code e (normalize_code c)
                 \<notin> set (map (\<lambda>c. hash_backup_code e (normalize_code c)) (generate_backup_codes e))"
    and same: "hash_backup_code e2 = hash_backup_code e"
  shows "\<exists>u'. get_by_username (fst (recover_rotate failing e d1 u)) (username u) = Some u' \<and>
              u_id u' = u_id u \<and>
              find (code_matches e2 (u_id u) c) (backup_codes (fst (recover_rotate failing e d1 u))) = None"
proof -
  let ?v = "u\<lparr>auth_credential := fst (setup_totp e (username u)), auth_type := TOTP\<rparr>"
  show ?thesis
  proof (cases "SaveUser \<in> failing")
    case True
    then show ?thesis using u nm by (simp add: recover_rotate_def split_beta)
  next
    case nf: False
    show ?thesis
    proof (cases "user_save d1 ?v")
      case (Inl x)
      then show ?thesis using u nm nf by (simp add: recover_rotate_def split_beta)
    next
      case (Inr p)
      obtain d2 u2 where p: "p = (d2, u2)" by (cases p)
      have u': "get_by_username d1 (username ?v) = Some u" using u by simp
      have idv: "u_id ?v = u_id u" by simp
      note ex = user_save_existing [OF Inr [unfolded p] u' idv]
      have id: "u_id u2 = u_id u" using ex by blast
      have bk: "backup_codes d2 = backup_codes d1" using ex by blast
      have "get_by_username d2 (username ?v) = Some u2" using ex by blast
      then have g2: "get_by_username d2 (username u) = Some u2" by simp
      let ?d3 = "fst (create_codes_for_user e d2 (u_id u2))"
      have g3: "get_by_username ?d3 (username u) = Some u2"
        using g2 by (simp add: get_by_username_def users_create_codes_kept)
      have "find (\<lambda>r. bc_user_id r = u_id u2 \<and> bc_used_at r = None \<and>
                 bc_code_hash r = hash_backup_code e (normalize_code c))
              (backup_codes ?d3) = None"
        using fresh by (rule no_match_after_create)
      then have n3: "find (code_matches e2 (u_id u) c) (backup_codes ?d3) = None"
        by (simp add: code_matches_def [abs_def] same id)
      have n2: "find (code_matches e2 (u_id u) c) (backup_codes d2) = None"
        using nm bk by simp
      show ?thesis
        using Inr p nf g2 g3 n2 n3 id
        by (simp add: recover_rotate_def split_beta invalidate_user_sessions_def get_by_username_def)
    qed
  qed
qed

text \<open>
  C3: let the submitted code be one of the named user's unused backup codes, whose stored
  hashes are pairwise distinct. Then \<^verbatim>\<open>verify_and_consume\<close> accepts it, and from
  then on rejects it without changing the store: in the state right after the consumption,
  and in the state the request leaves behind, whether it answered 200 or stopped at a
  failed write with the code already marked. Every later POST /recover/backup-code with the
  same body, however many are made, is answered 401 and leaves the store unchanged. The
  freshly generated codes are taken to differ from the consumed one, and later requests to
  use the same hash function.
\<close>

theorem backup_code_single_use:
  assumes "request_field req ''username'' \<noteq> []" and "request_field req ''backup_code'' \<noteq> []"
    and "get_by_username d (request_field req ''username'') = Some u"
    and "hash_backup_code e (normalize_code (request_field req ''backup_code''))
           \<in> set (map bc_code_hash (unused_codes d (u_id u)))"
    and "distinct (map bc_code_hash (unused_codes d (u_id u)))"
    and "hash_backup_code e (normalize_code (request_field req ''backup_code''))
           \<notin> set (map (\<lambda>c. hash_backup_code e (normalize_code c)) (generate_backup_codes e))"
    and "\<forall>a \<in> set attempts. hash_backup_code (snd a) = hash_backup_code e"
  shows "snd (verify_and_consume e d (u_id u) (request_field req ''backup_code'')) \<and>
         (\<forall>a \<in> set attempts.
            verify_and_consume (snd a)
              (fst (verify_and_consume e d (u_id u) (request_field req ''backup_code'')))
              (u_id u) (request_field req ''backup_code'')
            = (fst (verify_and_consume e d (u_id u) (request_field req ''backup_code'')), False)) \<and>
         (\<forall>a \<in> set attempts.
            verify_and_consume (snd a) (fst (recover_with_backup_code failing e req d))
              (u_id u) (request_field req ''backup_code'')
            = (fst (recover_with_backup_code failing e req d), False)) \<and>
         recover_attempts attempts req (fst (recover_with_backup_code failing e req d)) =
           (fst (recover_with_backup_code failing e req d), replicate (length attempts) unauthorized)"
proof -
  let ?n = "request_field req ''username''" and ?c = "request_field req ''backup_code''"
  let ?d1 = "fst (verify_and_consume e d (u_id u) ?c)"
  let ?D = "fst (recover_with_backup_code failing e req d)"
  from issued_code_found [OF assms(4)] obtain row where
    found: "find (code_matches e (u_id u) ?c) (backup_codes d) = Some row" by blast
  have accepted: "snd (verify_and_consume e d (u_id u) ?c)"
    using found by (simp add: verify_and_consume_def)
  have rot: "recover_with_backup_code failing e req d = recover_rotate failing e ?d1 u"
    using assms(1,2,3) found by (rule recover_reaches_rotate)
  have n: "username u = ?n"
    using assms(3) by (auto simp: get_by_username_def find_Some_iff)
  have u1: "get_by_username ?d1 (username u) = Some u"
    using assms(3) n by (simp add: get_by_username_def users_verify_and_consume)
  have nm1: "find (code_matches e2 (u_id u) ?c) (backup_codes ?d1) = None"
    if "hash_backup_code e2 = hash_backup_code e" for e2
    using found assms(5) that by (rule no_match_after_consume)
  have after: "\<exists>u'. get_by_username ?D ?n = Some u' \<and> u_id u' = u_id u \<and>
                    find (code_matches e2 (u_id u) ?c) (backup_codes ?D) = None"
    if "hash_backup_code e2 = hash_backup_code e" for e2
    using rotate_keeps_rejecting [OF u1 nm1 [OF that] assms(6) that, of failing] n
    by (simp add: rot)
  have second: "verify_and_consume (snd a) ?d1 (u_id u) ?c = (?d1, False)"
    if "a \<in> set attempts" for a
    using nm1 [of "snd a"] assms(7) that by (simp add: verify_and_consume_def)
  have later: "verify_and_consume (snd a) ?D (u_id u) ?c = (?D, False)"
    if "a \<in> set attempts" for a
  proof -
    have "hash_backup_code (snd a) = hash_backup_code e" using assms(7) that by blast
    from after [OF this] show ?thesis by (auto simp: verify_and_consume_def)
  qed
  have "recover_attempts attempts req ?D = (?D, replicate (length attempts) unauthorized)"
    using assms(7)
  proof (induction attempts)
    case Nil
    show ?case by simp
  next
    case (Cons a rest)
    obtain f2 e2 where a: "a = (f2, e2)" by (cases a)
    have "hash_backup_code e2 = hash_backup_code e" using Cons.prems a by simp
    from after [OF this] obtain u' where
      "get_by_username ?D ?n = Some u'" and
      "find (code_matches e2 (u_id u') ?c) (backup_codes ?D) = None" by auto
    with assms(1,2) have "recover_with_backup_code f2 e2 req ?D = (?D, unauthorized)"
      by (rule recover_rejected)
    moreover have "recover_attempts rest req ?D = (?D, replicate (length rest) unauthorized)"
      using Cons by simp
    ultimately show ?case by (simp add: a)
  qed
  with accepted second later show ?thesis by blast
qed

text \<open>
  Alice's code is consumed at time 1000, once in a request whose first write fails and
  once in a request that succeeds; three further requests follow in either case.
\<close>

theorem backup_code_single_use_witness:
  "snd (verify_and_consume env0 db_alice 1 ''zzzz-1111-2222-3333'') \<and>
   fst (verify_and_consume env0 db_alice 1 ''zzzz-1111-2222-3333'') =
     db_alice\<lparr>backup_codes := [alice_code\<lparr>bc_used_at := Some 1000\<rparr>]\<rparr> \<and>
   verify_and_consume (env0\<lparr>now := 1100\<rparr>)
       (db_alice\<lparr>backup_codes := [alice_code\<lparr>bc_used_at := Some 1000\<rparr>]\<rparr>) 1 ''zzzz-1111-2222-3333'' =
     (db_alice\<lparr>backup_codes := [alice_code\<lparr>bc_used_at := Some 1000\<rparr>]\<rparr>, False) \<and>
   recover_with_backup_code {SaveUser} env0 recover_request db_alice =
     (db_alice\<lparr>backup_codes := [alice_code\<lparr>bc_used_at := Some 1000\<rparr>]\<rparr>, Raised StoreError) \<and>
   recover_attempts [({}, env0\<lparr>now := 1100\<rparr>), ({}, env0\<lparr>now := 1200\<rparr>),
                     ({SaveUser}, env0\<lparr>now := 1300\<rparr>)] recover_request
       (db_alice\<lparr>backup_codes := [alice_code\<lparr>bc_used_at := Some 1000\<rparr>]\<rparr>) =
     (db_alice\<lparr>backup_codes := [alice_code\<lparr>bc_used_at := Some 1000\<rparr>]\<rparr>,
      [unauthorized, unauthorized, unauthorized]) \<and>
   fst (recover_with_backup_code {} env0 recover_request db_alice) = db_recovered \<and>
   verify_and_consume (env0\<lparr>now := 1100\<rparr>) db_recovered 1 ''zzzz-1111-2222-3333'' =
     (db_recovered, False) \<and>
   recover_attempts [({}, env0\<lparr>now := 1100\<rparr>), ({}, env0\<lparr>now := 1200\<rparr>),
                     ({SaveUser}, env0\<lparr>now := 1300\<rparr>)] recover_request db_recovered =
     (db_recovered, [unauthorized, unauthorized, unauthorized])"
proof -
  let ?A = "[({}, env0\<lparr>now := 1100\<rparr>), ({}, env0\<lparr>now := 1200\<rparr>),
             ({SaveUser}, env0\<lparr>now := 1300\<rparr>)] :: (store_op set \<times> env) list"
  let ?dc = "db_alice\<lparr>backup_codes := [alice_code\<lparr>bc_used_at := Some 1000\<rparr>]\<rparr>"
  have fn: "request_field recover_request ''username'' = ''alice''"
    by (simp add: request_field_def recover_request_def json_request_def get_stripped_def dict_get_def)
  have fc: "request_field recover_request ''backup_code'' = ''zzzz-1111-2222-3333''"
    by (simp add: request_field_def recover_request_def json_request_def get_stripped_def dict_get_def)
  have h1: "request_field recover_request ''username'' \<noteq> []" by (simp add: fn)
  have h2: "request_field recover_request ''backup_code'' \<noteq> []" by (simp add: fc)
  have h3: "get_by_username db_alice (request_field recover_request ''username'') = Some alice"
    by (simp add: fn) (simp add: get_by_username_def db_alice_def empty_db_def alice_def)
  have id: "u_id alice = 1" by (simp add: alice_def)
  have un: "unused_codes db_alice (u_id alice) = [alice_code]"
    by (simp add: unused_codes_def db_alice_def empty_db_def alice_code_def alice_def)
  have h4: "hash_backup_code env0 (normalize_code (request_field recover_request ''backup_code''))
             \<in> set (map bc_code_hash (unused_codes db_alice (u_id alice)))"
    by (simp add: fc un) (simp add: env0_def alice_code_def)
  have h5: "distinct (map bc_code_hash (unused_codes db_alice (u_id alice)))"
    by (simp add: un)
  have h6: "hash_backup_code env0 (normalize_code (request_field recover_request ''backup_code''))
           \<notin> set (map (\<lambda>c. hash_backup_code env0 (normalize_code c)) (generate_backup_codes env0))"
    by (simp add: fc) (simp add: env0_def)
  have h7: "\<forall>a \<in> set ?A. hash_backup_code (snd a) = hash_backup_code env0"
    by simp
  have consumed: "fst (verify_and_consume env0 db_alice 1 ''zzzz-1111-2222-3333'') = ?dc"
    by (simp add: verify_and_consume_def code_matches_def db_alice_def empty_db_def
        alice_code_def env0_def)
  have failed: "recover_with_backup_code {SaveUser} env0 recover_request db_alice =
                  (?dc, Raised StoreError)"
    by (simp add: recover_with_backup_code_def recover_request_def json_request_def
        get_stripped_def dict_get_def get_by_username_def db_alice_def empty_db_def alice_def
        alice_code_def env0_def verify_and_consume_def code_matches_def recover_rotate_def
        get_remaining_count_def Let_def)
  have succeeded: "fst (recover_with_backup_code {} env0 recover_request db_alice) = db_recovered"
    by (simp add: recover_alice)
  note a = backup_code_single_use [OF h1 h2 h3 h4 h5 h6 h7, of "{SaveUser}", unfolded fc id failed consumed fst_conv]
  note b = backup_code_single_use [OF h1 h2 h3 h4 h5 h6 h7, of "{}", unfolded fc id succeeded consumed]
  have a1: "snd (verify_and_consume env0 db_alice 1 ''zzzz-1111-2222-3333'')" using a by blast
  have a2: "verify_and_consume (env0\<lparr>now := 1100\<rparr>) ?dc 1 ''zzzz-1111-2222-3333'' = (?dc, False)"
    using a by simp
  have a4: "recover_attempts ?A recover_request ?dc = (?dc, [unauthorized, unauthorized, unauthorized])"
    using a by (simp add: numeral_3_eq_3)
  have b3: "verify_and_consume (env0\<lparr>now := 1100\<rparr>) db_recovered 1 ''zzzz-1111-2222-3333'' =
              (db_recovered, False)"
    using b by simp
  have b4: "recover_attempts ?A recover_request db_recovered =
              (db_recovered, [unauthorized, unauthorized, unauthorized])"
    using b by (simp add: numeral_3_eq_3)
  from a1 consumed a2 failed a4 succeeded b3 b4 show ?thesis by blast
qed

end
